theory Spec2Isabelle
  imports Main
begin

section \<open>Strings as the script sees them\<close>

text \<open>
  The script \<^verbatim>\<open>scripts/create.ts\<close> scaffolds a new package of the monorepo. Its strings are
  modelled as lists of 8-bit code units. The few characters that cannot be written inside
  a string literal are named here.
\<close>

definition nl :: string where
  "nl = [CHR 0x0A]"

definition dq :: string where
  "dq = [CHR 0x22]"

definition bslash :: string where
  "bslash = [CHR 0x5C]"

definition bquote :: string where
  "bquote = [CHR 0x60]"

text \<open>\<^verbatim>\<open>Array.prototype.join\<close>: the elements with the separator between them.\<close>

fun join_with :: "string \<Rightarrow> string list \<Rightarrow> string" where
  "join_with sep [] = []"
| "join_with sep [x] = x"
| "join_with sep (x # y # ys) = x @ sep @ join_with sep (y # ys)"

text \<open>\<^verbatim>\<open>String.prototype.split\<close> at one character: an empty string gives one empty piece.\<close>

fun split_on :: "char \<Rightarrow> string \<Rightarrow> string list" where
  "split_on c [] = [[]]"
| "split_on c (x # xs) =
     (if x = c then [] # split_on c xs
      else (case split_on c xs of
              [] \<Rightarrow> [[x]]
            | s # ss \<Rightarrow> (x # s) # ss))"

text \<open>\<^verbatim>\<open>String.prototype.toLowerCase\<close> on code units below 256.\<close>

definition lower_char :: "char \<Rightarrow> char" where
  "lower_char c =
     (let n = of_char c :: nat in
      if (65 \<le> n \<and> n \<le> 90) \<or> (192 \<le> n \<and> n \<le> 222 \<and> n \<noteq> 215)
      then char_of (n + 32) else c)"

definition toLowerCase :: "string \<Rightarrow> string" where
  "toLowerCase s = map lower_char s"

text \<open>\<^verbatim>\<open>String.prototype.trim\<close>: white space and line terminators below 256.\<close>

definition is_space :: "char \<Rightarrow> bool" where
  "is_space c = (of_char c \<in> {9, 10, 11, 12, 13, 32, 160 :: nat})"

definition trim :: "string \<Rightarrow> string" where
  "trim s = rev (dropWhile is_space (rev (dropWhile is_space s)))"

text \<open>Decimal rendering of an integer, as \<^verbatim>\<open>Number.prototype.toString\<close> gives it.\<close>

fun show_nat :: "nat \<Rightarrow> string" where
  "show_nat n =
     (if n < 10 then [char_of (48 + n)]
      else show_nat (n div 10) @ [char_of (48 + n mod 10)])"

declare show_nat.simps [simp del]

definition show_int :: "int \<Rightarrow> string" where
  "show_int i = (if i < 0 then ''-'' @ show_nat (nat (- i)) else show_nat (nat i))"

section \<open>Paths: the POSIX flavour of Node's path module\<close>

text \<open>
  \<^verbatim>\<open>path.normalize\<close> drops empty and \<^verbatim>\<open>.\<close> segments and resolves \<^verbatim>\<open>..\<close> against the
  segment before it; only a relative path may keep leading \<^verbatim>\<open>..\<close> segments. The
  accumulator holds the kept segments, newest first.
\<close>

fun normalizeSegments :: "bool \<Rightarrow> string list \<Rightarrow> string list \<Rightarrow> string list" where
  "normalizeSegments allowAboveRoot acc [] = rev acc"
| "normalizeSegments allowAboveRoot acc (s # ss) =
     (if s = [] \<or> s = ''.'' then normalizeSegments allowAboveRoot acc ss
      else if s = ''..'' then
        (case acc of
           [] \<Rightarrow> normalizeSegments allowAboveRoot (if allowAboveRoot then [''..''] else []) ss
         | t # ts \<Rightarrow>
             if t = ''..''
             then normalizeSegments allowAboveRoot (if allowAboveRoot then ''..'' # acc else acc) ss
             else normalizeSegments allowAboveRoot ts ss)
      else normalizeSegments allowAboveRoot (s # acc) ss)"

definition normalizeString :: "string \<Rightarrow> bool \<Rightarrow> string" where
  "normalizeString path allowAboveRoot =
     join_with ''/'' (normalizeSegments allowAboveRoot [] (split_on CHR ''/'' path))"

definition isAbsolute :: "string \<Rightarrow> bool" where
  "isAbsolute path = (case path of [] \<Rightarrow> False | c # _ \<Rightarrow> c = CHR ''/'')"

definition normalize :: "string \<Rightarrow> string" where
  "normalize path =
     (if path = [] then ''.''
      else
        let trailingSeparator = (last path = CHR ''/'');
            p = normalizeString path (\<not> isAbsolute path)
        in if p = [] then (if isAbsolute path then ''/'' else if trailingSeparator then ''./'' else ''.'')
           else (if isAbsolute path then ''/'' else []) @ p @ (if trailingSeparator then ''/'' else []))"

text \<open>\<^verbatim>\<open>path.join\<close>: the non-empty arguments, joined by the separator, then normalised.\<close>

definition join :: "string list \<Rightarrow> string" where
  "join args =
     (let joined = filter (\<lambda>a. a \<noteq> []) args
      in if joined = [] then ''.'' else normalize (join_with ''/'' joined))"

text \<open>
  \<^verbatim>\<open>path.resolve\<close>: the arguments are taken from the right until an absolute one is met,
  the working directory standing in when none is; the result has no trailing separator.
\<close>

fun resolve_from :: "string \<Rightarrow> string list \<Rightarrow> string" where
  "resolve_from resolved [] = resolved"
| "resolve_from resolved (a # older) =
     (if a = [] then resolve_from resolved older
      else if isAbsolute a then a @ ''/'' @ resolved
      else resolve_from (a @ ''/'' @ resolved) older)"

definition resolve :: "string \<Rightarrow> string list \<Rightarrow> string" where
  "resolve cwd args =
     (let resolvedPath = resolve_from [] (rev (cwd # args));
          p = normalizeString resolvedPath (\<not> isAbsolute resolvedPath)
      in if isAbsolute resolvedPath then ''/'' @ p
         else if p = [] then ''.'' else p)"

section \<open>JavaScript values and \<^verbatim>\<open>JSON.stringify\<close>\<close>

text \<open>
  The values the script builds and serialises. An object is the list of its properties in
  insertion order: every key the script uses is a name, never an array index, so that
  order is the order of enumeration. \<open>Undefined\<close> is the value of a missing property.
  \<open>Num n\<close> stands for the number \<open>n\<close> when \<open>n\<close> is a safe integer (of magnitude below
  \<open>2 ^ 53\<close>), which JavaScript holds exactly and writes in decimal; no other number is
  modelled. The script writes one number, the version \<open>1\<close> of the lockfile.
\<close>

datatype jsval =
    Undefined
  | Null
  | Bool bool
  | Num int
  | Str string
  | Arr "jsval list"
  | Obj "(string \<times> jsval) list"

text \<open>
  Reading a property: \<^verbatim>\<open>undefined.x\<close> and \<^verbatim>\<open>null.x\<close> throw a TypeError, whose message is
  given in the wording of Node 16 and later; a string, a number, a boolean or an array
  has none of the properties the script reads.
\<close>

datatype error =
    Error string
  | TypeError string
  | SystemError string string
  | SyntaxError string

fun member :: "jsval \<Rightarrow> string \<Rightarrow> error + jsval" where
  "member Undefined k =
     Inl (TypeError (''Cannot read properties of undefined (reading '' @ [CHR 0x27] @ k @ [CHR 0x27] @ '')''))"
| "member Null k =
     Inl (TypeError (''Cannot read properties of null (reading '' @ [CHR 0x27] @ k @ [CHR 0x27] @ '')''))"
| "member (Obj kvs) k = Inr (case map_of kvs k of None \<Rightarrow> Undefined | Some v \<Rightarrow> v)"
| "member _ k = Inr Undefined"

text \<open>The truth value of a value, as \<^verbatim>\<open>||\<close> tests it.\<close>

fun truthy :: "jsval \<Rightarrow> bool" where
  "truthy Undefined = False"
| "truthy Null = False"
| "truthy (Bool b) = b"
| "truthy (Num n) = (n \<noteq> 0)"
| "truthy (Str s) = (s \<noteq> [])"
| "truthy _ = True"

text \<open>String conversion, as a template literal applies it.\<close>

fun toString :: "jsval \<Rightarrow> string" where
  "toString Undefined = ''undefined''"
| "toString Null = ''null''"
| "toString (Bool b) = (if b then ''true'' else ''false'')"
| "toString (Num n) = show_int n"
| "toString (Str s) = s"
| "toString (Arr vs) =
     join_with '','' (map (\<lambda>v. case v of Undefined \<Rightarrow> [] | Null \<Rightarrow> [] | _ \<Rightarrow> toString v) vs)"
| "toString (Obj kvs) = ''[object Object]''"

text \<open>\<^verbatim>\<open>QuoteJSONString\<close>: the string between double quotes, with its escapes.\<close>

definition hex_digit :: "nat \<Rightarrow> char" where
  "hex_digit n = (if n < 10 then char_of (48 + n) else char_of (87 + n))"

definition quote_char :: "char \<Rightarrow> string" where
  "quote_char c =
     (let n = of_char c :: nat in
      if n = 8 then bslash @ ''b''
      else if n = 9 then bslash @ ''t''
      else if n = 10 then bslash @ ''n''
      else if n = 12 then bslash @ ''f''
      else if n = 13 then bslash @ ''r''
      else if n = 34 then bslash @ dq
      else if n = 92 then bslash @ bslash
      else if n < 32 then bslash @ ''u00'' @ [hex_digit (n div 16), hex_digit (n mod 16)]
      else [c])"

definition quote :: "string \<Rightarrow> string" where
  "quote s = dq @ concat (map quote_char s) @ dq"

text \<open>
  \<^verbatim>\<open>SerializeJSONProperty\<close> with the gap and the current indentation: \<open>None\<close> for a value
  that has no JSON text. A property without one is left out of its object; an array
  element without one is written \<^verbatim>\<open>null\<close>.
\<close>

fun serialize :: "string \<Rightarrow> string \<Rightarrow> jsval \<Rightarrow> string option" where
  "serialize gap indent Undefined = None"
| "serialize gap indent Null = Some ''null''"
| "serialize gap indent (Bool b) = Some (if b then ''true'' else ''false'')"
| "serialize gap indent (Num n) = Some (show_int n)"
| "serialize gap indent (Str s) = Some (quote s)"
| "serialize gap indent (Arr vs) =
     (let stepback = indent;
          indent' = indent @ gap;
          partial = map (\<lambda>v. case serialize gap indent' v of None \<Rightarrow> ''null'' | Some t \<Rightarrow> t) vs
      in Some (if partial = [] then ''[]''
               else if gap = [] then ''['' @ join_with '','' partial @ '']''
               else ''['' @ nl @ indent' @ join_with ('','' @ nl @ indent') partial
                      @ nl @ stepback @ '']''))"
| "serialize gap indent (Obj kvs) =
     (let stepback = indent;
          indent' = indent @ gap;
          partial = concat (map (\<lambda>kv. case serialize gap indent' (snd kv) of
                                          None \<Rightarrow> []
                                        | Some t \<Rightarrow> [quote (fst kv) @ '':'' @ (if gap = [] then [] else '' '') @ t])
                                kvs)
      in Some (if partial = [] then ''{}''
               else if gap = [] then ''{'' @ join_with '','' partial @ ''}''
               else ''{'' @ nl @ indent' @ join_with ('','' @ nl @ indent') partial
                      @ nl @ stepback @ ''}''))"

text \<open>\<^verbatim>\<open>JSON.stringify(value, null, space)\<close> for a number of spaces (none: the compact form).\<close>

definition stringify :: "jsval \<Rightarrow> nat \<Rightarrow> string option" where
  "stringify v space = serialize (replicate (min space 10) CHR '' '') [] v"

section \<open>Name validation\<close>

text \<open>
  The script calls the package \<^verbatim>\<open>validate-npm-package-name\<close> (bound to \<^verbatim>\<open>npmValiddate\<close>),
  which is a dependency and not part of the repository. Its rules are reproduced here as
  the package documents them: violations of the rules for every package are \<open>errors\<close>,
  violations of the rules for new packages only are \<open>warnings\<close>, and an empty list is
  deleted from the result. The list of core module names comes from a further package
  and is a parameter.
\<close>

record validation =
  validForNewPackages :: bool
  validForOldPackages :: bool
  warnings :: "string list option"
  errors :: "string list option"

definition done_validation :: "string list \<Rightarrow> string list \<Rightarrow> validation" where
  "done_validation ws es =
     \<lparr> validForNewPackages = (es = [] \<and> ws = []),
       validForOldPackages = (es = []),
       warnings = (if ws = [] then None else Some ws),
       errors = (if es = [] then None else Some es) \<rparr>"

definition blacklist :: "string list" where
  "blacklist = [''node_modules'', ''favicon.ico'']"

text \<open>\<^verbatim>\<open>encodeURIComponent(s) === s\<close>: every character is one the encoding leaves alone.\<close>

definition uri_unreserved :: "char \<Rightarrow> bool" where
  "uri_unreserved c =
     (let n = of_char c :: nat in
      (65 \<le> n \<and> n \<le> 90) \<or> (97 \<le> n \<and> n \<le> 122) \<or> (48 \<le> n \<and> n \<le> 57)
      \<or> c \<in> set (''-_.!~*()'' @ [CHR 0x27]))"

definition uri_friendly :: "string \<Rightarrow> bool" where
  "uri_friendly s = list_all uri_unreserved s"

text \<open>The scoped pattern \<^verbatim>\<open>^(?:@([^/]+?)[/])?([^/]+?)$\<close> with its scope group matched.\<close>

definition scoped_parts :: "string \<Rightarrow> (string \<times> string) option" where
  "scoped_parts name =
     (case name of
        [] \<Rightarrow> None
      | c # rest \<Rightarrow>
          if c = CHR ''@'' then
            (case split_on CHR ''/'' rest of
               [user, pkg] \<Rightarrow> if user \<noteq> [] \<and> pkg \<noteq> [] then Some (user, pkg) else None
             | _ \<Rightarrow> None)
          else None)"

definition special_chars :: "string" where
  "special_chars = ''~!()*'' @ [CHR 0x27]"

definition special_message :: "string" where
  "special_message =
     ''name can no longer contain special characters ('' @ dq @ ''~'' @ [CHR 0x27]
       @ ''!()*'' @ dq @ '')''"

definition npmValiddate :: "string list \<Rightarrow> string \<Rightarrow> validation" where
  "npmValiddate builtins name =
     (let es =
            (if name = [] then [''name length must be greater than zero''] else [])
          @ (if take 1 name = ''.'' then [''name cannot start with a period''] else [])
          @ (if take 1 name = ''_'' then [''name cannot start with an underscore''] else [])
          @ (if trim name \<noteq> name then [''name cannot contain leading or trailing spaces''] else [])
          @ concat (map (\<lambda>b. if toLowerCase name = b then [b @ '' is a blacklisted name''] else [])
                        blacklist);
          ws =
            concat (map (\<lambda>b. if toLowerCase name = b then [b @ '' is a core module name''] else [])
                        builtins)
          @ (if length name > 214
             then [''name can no longer contain more than 214 characters''] else [])
          @ (if toLowerCase name \<noteq> name
             then [''name can no longer contain capital letters''] else [])
          @ (if \<exists>c \<in> set (last (split_on CHR ''/'' name)). c \<in> set special_chars
             then [special_message] else [])
      in if uri_friendly name then done_validation ws es
         else (case scoped_parts name of
                 Some (user, pkg) \<Rightarrow>
                   if uri_friendly user \<and> uri_friendly pkg then done_validation ws es
                   else done_validation ws (es @ [''name can only contain URL-friendly characters''])
               | None \<Rightarrow> done_validation ws (es @ [''name can only contain URL-friendly characters''])))"

section \<open>The environment of one run\<close>

text \<open>
  Everything the script reads from outside itself: the directory of the script and the
  working directory, the dependencies it calls (the formatter \<^verbatim>\<open>prettier\<close>, \<^verbatim>\<open>git-user-name\<close>,
  \<^verbatim>\<open>camelcase\<close>, the styles of \<^verbatim>\<open>chalk\<close>, \<^verbatim>\<open>cli-highlight\<close>), the root manifest that \<^verbatim>\<open>require\<close>
  loads, and the faults the operating system may answer a call with. A call that can
  throw returns a sum, the error on the left. The formatter is given the parser, the
  resolved configuration its options are spread from, and the text; a style of \<^verbatim>\<open>chalk\<close> is
  given its name and the text it wraps.
\<close>

record env =
  dirname :: string
  cwd :: string
  builtins :: "string list"
  resolveConfig :: "error + jsval"
  userName :: jsval
  rootPackageJson :: "error + jsval"
  format :: "string \<Rightarrow> jsval \<Rightarrow> string \<Rightarrow> error + string"
  camelCase :: "string \<Rightarrow> string"
  chalk :: "string \<Rightarrow> string \<Rightarrow> string"
  highlight :: "string \<Rightarrow> string"
  readFault :: "error option"
  mkdirSyncFault :: "error option"

definition bind :: "error + 'a \<Rightarrow> ('a \<Rightarrow> error + 'b) \<Rightarrow> error + 'b" where
  "bind r f = (case r of Inl e \<Rightarrow> Inl e | Inr x \<Rightarrow> f x)"

section \<open>The file system\<close>

datatype node = File string | Directory

text \<open>The files and directories, by absolute path.\<close>

type_synonym fs = "string \<Rightarrow> node option"

datatype fsop = Mkdir string | WriteFile string string

text \<open>
  The directory a resolved path lies in, as \<^verbatim>\<open>path.dirname\<close> gives it; the root is its own.
  The root directory always exists.
\<close>

definition parent :: "string \<Rightarrow> string" where
  "parent p =
     (let segments = butlast (filter (\<lambda>s. s \<noteq> []) (split_on CHR ''/'' p))
      in if isAbsolute p then ''/'' @ join_with ''/'' segments
         else if segments = [] then ''.'' else join_with ''/'' segments)"

definition lookup :: "fs \<Rightarrow> string \<Rightarrow> node option" where
  "lookup fsys key = (if key = ''/'' then Some Directory else fsys key)"

text \<open>
  \<^verbatim>\<open>readFileSync\<close>, and what a \<^verbatim>\<open>mkdir\<close> or a \<^verbatim>\<open>writeFile\<close> does when it is carried out. A
  fault of the environment makes the call fail and leaves the files as they are.
  \<^verbatim>\<open>mkdir\<close> is not recursive: it fails on a path that exists, and on one whose parent
  directory does not. \<^verbatim>\<open>writeFile\<close> creates the file or replaces its content; it fails on
  a directory, and when the directory the file is to lie in does not exist.
\<close>

definition readFile :: "string \<Rightarrow> error option \<Rightarrow> fs \<Rightarrow> string \<Rightarrow> error + string" where
  "readFile wd fault files p =
     (case fault of
        Some e \<Rightarrow> Inl e
      | None \<Rightarrow>
          (case files (resolve wd [p]) of
             None \<Rightarrow> Inl (SystemError ''ENOENT'' p)
           | Some Directory \<Rightarrow> Inl (SystemError ''EISDIR'' p)
           | Some (File c) \<Rightarrow> Inr c))"

fun perform :: "string \<Rightarrow> fsop \<Rightarrow> error option \<Rightarrow> fs \<Rightarrow> error option \<times> fs" where
  "perform wd ope (Some e) files = (Some e, files)"
| "perform wd (Mkdir p) None files =
     (if lookup files (resolve wd [p]) \<noteq> None then (Some (SystemError ''EEXIST'' p), files)
      else (case lookup files (parent (resolve wd [p])) of
              None \<Rightarrow> (Some (SystemError ''ENOENT'' p), files)
            | Some (File _) \<Rightarrow> (Some (SystemError ''ENOTDIR'' p), files)
            | Some Directory \<Rightarrow> (None, files(resolve wd [p] \<mapsto> Directory))))"
| "perform wd (WriteFile p c) None files =
     (if lookup files (resolve wd [p]) = Some Directory then (Some (SystemError ''EISDIR'' p), files)
      else (case lookup files (parent (resolve wd [p])) of
              None \<Rightarrow> (Some (SystemError ''ENOENT'' p), files)
            | Some (File _) \<Rightarrow> (Some (SystemError ''ENOTDIR'' p), files)
            | Some Directory \<Rightarrow> (None, files(resolve wd [p] \<mapsto> File c))))"

definition mkdirSync :: "string \<Rightarrow> error option \<Rightarrow> fs \<Rightarrow> string \<Rightarrow> error + fs" where
  "mkdirSync wd fault files p =
     (case perform wd (Mkdir p) fault files of
        (Some e, _) \<Rightarrow> Inl e
      | (None, files') \<Rightarrow> Inr files')"

section \<open>The generated documents\<close>

text \<open>\<^verbatim>\<open>argv.folder || name\<close>: an absent folder and an empty one both give the name.\<close>

definition folderName :: "string option \<Rightarrow> string \<Rightarrow> string" where
  "folderName folder name =
     (case folder of
        None \<Rightarrow> name
      | Some f \<Rightarrow> if f = [] then name else f)"

definition workspaceDir :: "env \<Rightarrow> string" where
  "workspaceDir e = join [dirname e, ''../'']"

definition dir :: "env \<Rightarrow> string option \<Rightarrow> string \<Rightarrow> string" where
  "dir e folder name = join [workspaceDir e, ''packages'', folderName folder name]"

definition packageName :: "string \<Rightarrow> string" where
  "packageName name = ''@ganache/'' @ name"

definition version :: string where
  "version = ''0.1.0''"

definition devDependency :: "jsval \<Rightarrow> string \<Rightarrow> error + jsval" where
  "devDependency root k = bind (member root ''devDependencies'') (\<lambda>deps. member deps k)"

text \<open>
  The keys of \<^verbatim>\<open>devDependencies\<close> in the manifest, in the order the literal writes them.
\<close>

definition devDependencyKeys :: "string list" where
  "devDependencyKeys = [''@types/mocha'', ''cross-env'', ''mocha'', ''nyc'', ''ts-node'', ''typescript'']"

definition pkg_object :: "string \<Rightarrow> string option \<Rightarrow> jsval \<Rightarrow> jsval list \<Rightarrow> jsval" where
  "pkg_object name folder author deps =
     Obj [
       (''name'', Str (packageName name)),
       (''publishConfig'', Obj [(''access'', Str ''public'')]),
       (''version'', Str version),
       (''description'', Str []),
       (''author'', author),
       (''homepage'', Str (''https://github.com/trufflesuite/ganache/tree/develop/packages/''
                            @ folderName folder name @ ''#readme'')),
       (''license'', Str ''MIT''),
       (''main'', Str ''lib/index.js''),
       (''typings'', Str ''typings''),
       (''source'', Str ''index.ts''),
       (''directories'', Obj [(''lib'', Str ''lib''), (''test'', Str ''tests'')]),
       (''files'', Arr [Str ''lib'', Str ''typings'']),
       (''repository'', Obj [
          (''type'', Str ''git''),
          (''url'', Str ''https://github.com/trufflesuite/ganache.git''),
          (''directory'', Str (''packages/'' @ folderName folder name))]),
       (''scripts'', Obj [
          (''tsc'', Str ''ttsc --build''),
          (''test'', Str ''nyc npm run mocha''),
          (''mocha'', Str (''cross-env TS_NODE_FILES=true mocha --exit --check-leaks ''
                           @ ''--throw-deprecation --trace-warnings --require ts-node/register ''
                           @ [CHR 0x27] @ ''tests/**/*.test.ts'' @ [CHR 0x27]))]),
       (''bugs'', Obj [(''url'', Str ''https://github.com/trufflesuite/ganache/issues'')]),
       (''keywords'', Arr [
          Str ''ganache'', Str (''ganache-'' @ name), Str ''ethereum'', Str ''evm'',
          Str ''blockchain'', Str ''smart contracts'', Str ''dapps'', Str ''solidity'',
          Str ''vyper'', Str ''fe'', Str ''web3'', Str ''tooling'', Str ''truffle'']),
       (''devDependencies'', Obj (zip devDependencyKeys deps))]"

text \<open>
  The manifest: the object literal \<open>pkg_object\<close> with its computed properties. They are
  evaluated in the order written, so the first access that throws decides the error:
  \<^verbatim>\<open>packageAuthor || rootPackageJson.author\<close> reads the root manifest only when the user name
  is not truthy, and each development dependency reads \<^verbatim>\<open>rootPackageJson.devDependencies\<close>.
\<close>

definition pkg :: "string \<Rightarrow> string option \<Rightarrow> jsval \<Rightarrow> jsval \<Rightarrow> error + jsval" where
  "pkg name folder packageAuthor root =
     bind (if truthy packageAuthor then Inr packageAuthor else member root ''author'') (\<lambda>author.
     bind (devDependency root ''@types/mocha'') (\<lambda>typesMocha.
     bind (devDependency root ''cross-env'') (\<lambda>crossEnv.
     bind (devDependency root ''mocha'') (\<lambda>mocha.
     bind (devDependency root ''nyc'') (\<lambda>nyc.
     bind (devDependency root ''ts-node'') (\<lambda>tsNode.
     bind (devDependency root ''typescript'') (\<lambda>typescript.
     Inr (pkg_object name folder author
            [typesMocha, crossEnv, mocha, nyc, tsNode, typescript]))))))))"

definition numDirectoriesAwayFromSrc :: nat where
  "numDirectoriesAwayFromSrc = 1"

definition relativePathToSrc :: string where
  "relativePathToSrc = concat (replicate numDirectoriesAwayFromSrc ''../'')"

definition tsConfig :: jsval where
  "tsConfig =
     Obj [
       (''extends'', Str (relativePathToSrc @ ''tsconfig-base.json'')),
       (''compilerOptions'', Obj [(''outDir'', Str ''lib''), (''declarationDir'', Str ''typings'')]),
       (''include'', Arr [Str ''src'', Str ''index.ts''])]"

definition shrinkwrap :: "string \<Rightarrow> jsval" where
  "shrinkwrap name =
     Obj [(''name'', Str (packageName name)), (''version'', Str version), (''lockfileVersion'', Num 1)]"

definition testFile :: "env \<Rightarrow> string \<Rightarrow> string" where
  "testFile e name =
     ''import assert from '' @ dq @ ''assert'' @ dq @ '';'' @ nl
     @ ''import '' @ camelCase e name @ '' from '' @ dq @ ''../src/'' @ dq @ '';'' @ nl
     @ nl
     @ ''describe('' @ dq @ packageName name @ dq @ '', () => {'' @ nl
     @ ''  it('' @ dq @ ''needs tests'' @ dq @ '');'' @ nl
     @ ''})''"

definition indexFile :: string where
  "indexFile = ''export default {'' @ nl @ ''  // TODO'' @ nl @ ''}'' @ nl"

text \<open>The header comment of the entry stub reads the author and the license of the manifest.\<close>

definition headerdoc :: "string \<Rightarrow> jsval \<Rightarrow> error + string" where
  "headerdoc name manifest =
     bind (member manifest ''author'') (\<lambda>author.
     bind (member manifest ''license'') (\<lambda>license.
     Inr (''/*!'' @ nl
          @ ''  * '' @ packageName name @ nl
          @ ''  *'' @ nl
          @ ''  * @author '' @ toString author @ nl
          @ ''  * @license '' @ toString license @ nl
          @ ''*/'' @ nl
          @ nl)))"

definition npmignore :: string where
  "npmignore =
     ''/index.ts'' @ nl @ ''/tests'' @ nl @ ''/.nyc_output'' @ nl @ ''/coverage'' @ nl
     @ ''/scripts'' @ nl @ ''/src'' @ nl @ ''/tsconfig.json'' @ nl @ ''/typedoc.json'' @ nl"

definition readme :: "string \<Rightarrow> string" where
  "readme name = ''# '' @ bquote @ packageName name @ bquote @ nl @ ''> TODO: description''"

text \<open>\<^verbatim>\<open>JSON.stringify(v, null, space) + "\n"\<close>; a value without JSON text concatenates as \<^verbatim>\<open>undefined\<close>.\<close>

definition stringify_line :: "jsval \<Rightarrow> nat \<Rightarrow> string" where
  "stringify_line v space =
     (case stringify v space of None \<Rightarrow> ''undefined'' | Some t \<Rightarrow> t) @ nl"

definition pkgStr :: "jsval \<Rightarrow> string" where
  "pkgStr manifest = stringify_line manifest 2"

definition tsConfigStr :: string where
  "tsConfigStr = stringify_line tsConfig 2"

definition shrinkwrapStr :: "string \<Rightarrow> string" where
  "shrinkwrapStr name = stringify_line (shrinkwrap name) 0"

section \<open>Emission: the promises in flight\<close>

text \<open>
  Every \<^verbatim>\<open>mkdir\<close> and \<^verbatim>\<open>writeFile\<close> of \<^verbatim>\<open>fs-extra\<close> is a request in flight until the
  environment settles it. A task is one promise chain: the request in flight and what
  \<^verbatim>\<open>.then\<close> runs after it succeeds, each step either throwing (the formatter refused the
  text) or issuing the next request.
\<close>

datatype task_id =
  NpmIgnore | License | IndexTs | Tests | Src | TsConfig | Readme | PackageJson | Shrinkwrap

record task =
  tid :: task_id
  request :: fsop
  continuation :: "(error + fsop) list"

datatype event =
    Issued task_id fsop
  | Settled task_id fsop "error option"
  | Threw task_id error
  | ThrewSync error

record emission =
  files :: fs
  pool :: "task list"
  trace :: "event list"
  rejection :: "error option"
  unhandled :: "error list"

text \<open>
  The documents of one run, built before anything is written: the statements of the
  \<^verbatim>\<open>try\<close> block down to \<^verbatim>\<open>pkgStr\<close>. Any of them may throw.
\<close>

record documents =
  LICENSE :: string
  prettierConfig :: jsval
  manifest :: jsval

definition prepare :: "env \<Rightarrow> fs \<Rightarrow> string \<Rightarrow> string option \<Rightarrow> error + documents" where
  "prepare e files0 name folder =
     bind (readFile (cwd e) (readFault e) files0 (join [workspaceDir e, ''LICENSE''])) (\<lambda>license.
     bind (resolveConfig e) (\<lambda>config.
     bind (rootPackageJson e) (\<lambda>root.
     bind (pkg name folder (userName e) root) (\<lambda>m.
     Inr \<lparr> LICENSE = license, prettierConfig = config, manifest = m \<rparr>))))"

definition tests :: "env \<Rightarrow> string option \<Rightarrow> string \<Rightarrow> string" where
  "tests e folder name = join [dir e folder name, ''tests'']"

definition src :: "env \<Rightarrow> string option \<Rightarrow> string \<Rightarrow> string" where
  "src e folder name = join [dir e folder name, ''src'']"

definition pkgPath :: "env \<Rightarrow> string option \<Rightarrow> string \<Rightarrow> string" where
  "pkgPath e folder name = join [dir e folder name, ''package.json'']"

text \<open>
  The functions that write one file each. Those that format first throw when the
  formatter does; \<open>initRootFiles\<close> formats nothing.
\<close>

definition initSrc :: "env \<Rightarrow> documents \<Rightarrow> string option \<Rightarrow> string \<Rightarrow> error + fsop" where
  "initSrc e d folder name =
     bind (format e ''typescript'' (prettierConfig d) indexFile) (\<lambda>text.
     Inr (WriteFile (join [src e folder name, ''index.ts'']) text))"

definition initIndex :: "env \<Rightarrow> documents \<Rightarrow> string option \<Rightarrow> string \<Rightarrow> error + fsop" where
  "initIndex e d folder name =
     bind (headerdoc name (manifest d)) (\<lambda>header.
     bind (format e ''typescript'' (prettierConfig d) (header @ indexFile)) (\<lambda>text.
     Inr (WriteFile (join [dir e folder name, ''index.ts'']) text)))"

definition initRootFiles :: "env \<Rightarrow> documents \<Rightarrow> string option \<Rightarrow> string \<Rightarrow> task list" where
  "initRootFiles e d folder name =
     [\<lparr> tid = NpmIgnore,
        request = WriteFile (join [dir e folder name, ''.npmignore'']) npmignore,
        continuation = [] \<rparr>,
      \<lparr> tid = License,
        request = WriteFile (join [dir e folder name, ''LICENSE'']) (LICENSE d),
        continuation = [] \<rparr>]"

definition initTests :: "env \<Rightarrow> documents \<Rightarrow> string option \<Rightarrow> string \<Rightarrow> error + fsop" where
  "initTests e d folder name =
     bind (format e ''typescript'' (prettierConfig d) (testFile e name)) (\<lambda>text.
     Inr (WriteFile (join [tests e folder name, ''index.test.ts'']) text))"

definition single :: "task_id \<Rightarrow> fsop \<Rightarrow> task list" where
  "single i ope = [\<lparr> tid = i, request = ope, continuation = [] \<rparr>]"

text \<open>
  The elements of the array handed to \<^verbatim>\<open>Promise.all\<close>, in the order they are evaluated.
  An element either throws while it is evaluated or puts its requests in flight.
\<close>

definition elements :: "env \<Rightarrow> documents \<Rightarrow> string option \<Rightarrow> string \<Rightarrow> (error + task list) list" where
  "elements e d folder name =
     [Inr (initRootFiles e d folder name),
      bind (initIndex e d folder name) (\<lambda>w. Inr (single IndexTs w)),
      Inr [\<lparr> tid = Tests, request = Mkdir (tests e folder name),
             continuation = [initTests e d folder name] \<rparr>],
      Inr [\<lparr> tid = Src, request = Mkdir (src e folder name),
             continuation = [initSrc e d folder name] \<rparr>],
      Inr (single TsConfig (WriteFile (join [dir e folder name, ''tsconfig.json'']) tsConfigStr)),
      bind (format e ''markdown'' (prettierConfig d) (readme name)) (\<lambda>text.
        Inr (single Readme (WriteFile (join [dir e folder name, ''README.md'']) text))),
      Inr (single PackageJson (WriteFile (pkgPath e folder name) (pkgStr (manifest d)))),
      Inr (single Shrinkwrap
             (WriteFile (join [dir e folder name, ''npm-shrinkwrap.json'']) (shrinkwrapStr name)))]"

text \<open>
  Evaluating the array: the requests of the elements before the first that throws are in
  flight, and the error, when there is one, leaves the array unfinished.
\<close>

fun issue :: "(error + task list) list \<Rightarrow> task list \<times> error option" where
  "issue [] = ([], None)"
| "issue (Inl e # _) = ([], Some e)"
| "issue (Inr ts # rest) = (case issue rest of (later, thrown) \<Rightarrow> (ts @ later, thrown))"

text \<open>
  A rejected chain. Under \<^verbatim>\<open>Promise.all\<close> the first rejection is the one the \<^verbatim>\<open>await\<close>
  throws and the later ones are dropped. When the array was never finished nothing
  listens: the rejection is unhandled, except that the two root files sit under an
  inner \<^verbatim>\<open>Promise.all\<close>, which rejects once.
\<close>

definition root_file :: "task_id \<Rightarrow> bool" where
  "root_file i = (i = NpmIgnore \<or> i = License)"

fun failed_root :: "event \<Rightarrow> bool" where
  "failed_root (Settled i _ (Some _)) = root_file i"
| "failed_root _ = False"

definition reject :: "bool \<Rightarrow> event list \<Rightarrow> task_id \<Rightarrow> error \<Rightarrow> emission \<Rightarrow> emission" where
  "reject awaited earlier i e st =
     (if awaited then
        (case rejection st of None \<Rightarrow> st\<lparr>rejection := Some e\<rparr> | Some _ \<Rightarrow> st)
      else if root_file i \<and> list_ex failed_root earlier then st
      else st\<lparr>unhandled := unhandled st @ [e]\<rparr>)"

text \<open>
  The environment settles one request in flight: it picks the request and may answer
  with a fault. A request that succeeds is carried out on the files; the chain then ends,
  throws, or issues its next request.
\<close>

definition settle :: "string \<Rightarrow> bool \<Rightarrow> nat \<times> error option \<Rightarrow> emission \<Rightarrow> emission" where
  "settle wd awaited choice st =
     (let k = fst choice mod length (pool st);
          t = pool st ! k;
          others = take k (pool st) @ drop (Suc k) (pool st);
          done_event = Settled (tid t) (request t) (fst (perform wd (request t) (snd choice) (files st)));
          st1 = st\<lparr> files := snd (perform wd (request t) (snd choice) (files st)),
                    trace := trace st @ [done_event] \<rparr>
      in case fst (perform wd (request t) (snd choice) (files st)) of
           Some e \<Rightarrow> reject awaited (trace st) (tid t) e (st1\<lparr>pool := others\<rparr>)
         | None \<Rightarrow>
             (case continuation t of
                [] \<Rightarrow> st1\<lparr>pool := others\<rparr>
              | Inl e # _ \<Rightarrow>
                  reject awaited (trace st) (tid t) e
                    (st1\<lparr>pool := others, trace := trace st1 @ [Threw (tid t) e]\<rparr>)
              | Inr ope # rest \<Rightarrow>
                  st1\<lparr> pool := (pool st)[k := t\<lparr>request := ope, continuation := rest\<rparr>],
                        trace := trace st1 @ [Issued (tid t) ope] \<rparr>))"

text \<open>
  The event loop runs until nothing is in flight. The schedule is the environment's: its
  \<open>i\<close>-th entry settles the \<open>i\<close>-th completion. The fuel is the number of requests the
  tasks can still make, which bounds the completions.
\<close>

fun drain :: "nat \<Rightarrow> string \<Rightarrow> bool \<Rightarrow> (nat \<Rightarrow> nat \<times> error option) \<Rightarrow> nat \<Rightarrow> emission \<Rightarrow> emission" where
  "drain 0 wd awaited schedule i st = st"
| "drain (Suc fuel) wd awaited schedule i st =
     (if pool st = [] then st
      else drain fuel wd awaited schedule (Suc i) (settle wd awaited (schedule i) st))"

definition requests_left :: "task list \<Rightarrow> nat" where
  "requests_left ts = sum_list (map (\<lambda>t. Suc (length (continuation t))) ts)"

text \<open>
  The state when the array has been evaluated: the requests of its elements are in
  flight and issued, in their order, and nothing has settled.
\<close>

definition start :: "env \<Rightarrow> documents \<Rightarrow> string option \<Rightarrow> string \<Rightarrow> fs \<Rightarrow> emission" where
  "start e d folder name files1 =
     (let started = issue (elements e d folder name)
      in \<lparr> files = files1,
           pool = fst started,
           trace = map (\<lambda>t. Issued (tid t) (request t)) (fst started)
                   @ (case snd started of None \<Rightarrow> [] | Some x \<Rightarrow> [ThrewSync x]),
           rejection = None,
           unhandled = [] \<rparr>)"

text \<open>
  \<^verbatim>\<open>await Promise.all([...])\<close> after \<^verbatim>\<open>mkdirSync\<close>: the state when the loop has drained, and the
  error the \<^verbatim>\<open>try\<close> block ends with, if any: the one thrown while the array was evaluated,
  or else the first rejection.
\<close>

definition emit :: "env \<Rightarrow> (nat \<Rightarrow> nat \<times> error option) \<Rightarrow> documents \<Rightarrow> string option \<Rightarrow> string
    \<Rightarrow> fs \<Rightarrow> emission \<times> error option" where
  "emit e schedule d folder name files1 =
     (let started = issue (elements e d folder name);
          st = drain (requests_left (fst started)) (cwd e) (snd started = None) schedule 0
                 (start e d folder name files1)
      in (st, case snd started of Some x \<Rightarrow> Some x | None \<Rightarrow> rejection st))"

section \<open>The script\<close>

text \<open>
  What one run leaves behind: the console, the files, the events of the emission, and how
  the run ended. \<open>Exited\<close> is \<^verbatim>\<open>process.exit\<close>; \<open>Uncaught\<close> is an exception that leaves the
  module; \<open>Rejected\<close> is the promise of the asynchronous body rejecting, which nothing
  handles; \<open>Returned\<close> is the body running to its end.
\<close>

datatype printed =
    Log string
  | ErrorLine string
  | ErrorObject error
  | Write string

datatype ending =
    Exited nat
  | Uncaught error
  | Rejected error
  | Returned

record run =
  console :: "printed list"
  disk :: fs
  events :: "event list"
  ending :: ending
  unhandledRejections :: "error list"

text \<open>
  What \<^verbatim>\<open>yargs\<close> does with the command line. \<open>Parsed\<close>: the name, and the folder override
  absent or given once. \<open>Repeated\<close>: the name, and the overrides of a command line that gives
  \<^verbatim>\<open>--folder\<close> more than once, which \<^verbatim>\<open>yargs\<close> collects in an array. \<open>Failed\<close>: the call of the
  \<^verbatim>\<open>fail\<close> handler with the message, the error if there is one, and the help text. \<open>Crashed\<close>:
  an exception that leaves \<^verbatim>\<open>yargs\<close> without passing through the handler, such as one thrown
  while the builder of the command runs.
\<close>

datatype parsed =
    Parsed string "string option"
  | Repeated string "string list"
  | Failed string "error option" string
  | Crashed error

definition COLORS_Reset :: string where
  "COLORS_Reset = [CHR 0x1B] @ ''[0m''"

text \<open>\<^verbatim>\<open>String.prototype.replace\<close> with a string pattern: the first occurrence only.\<close>

fun replace_first :: "string \<Rightarrow> string \<Rightarrow> string \<Rightarrow> string" where
  "replace_first pat rep [] = (if pat = [] then rep else [])"
| "replace_first pat rep (c # cs) =
     (if take (length pat) (c # cs) = pat then rep @ drop (length pat) (c # cs)
      else c # replace_first pat rep cs)"

text \<open>The \<^verbatim>\<open>fail\<close> handler given to \<^verbatim>\<open>yargs\<close>.\<close>

definition fail :: "fs \<Rightarrow> string \<Rightarrow> error option \<Rightarrow> string \<Rightarrow> run" where
  "fail files0 msg err help =
     (case err of
        Some x \<Rightarrow>
          \<lparr> console = [], disk = files0, events = [], ending = Uncaught x,
            unhandledRejections = [] \<rparr>
      | None \<Rightarrow>
          \<lparr> console = [ErrorLine (replace_first (nl @ nl @ nl) nl help), ErrorLine [], ErrorLine msg],
            disk = files0, events = [], ending = Exited 0, unhandledRejections = [] \<rparr>)"

definition invalid_name_message :: "string \<Rightarrow> validation \<Rightarrow> string" where
  "invalid_name_message name nameValidation =
     ''the name '' @ dq @ name @ dq @ '' is not a valid npm package name:'' @ nl
     @ toString (case errors nameValidation of None \<Rightarrow> Undefined | Some es \<Rightarrow> Arr (map Str es))"

definition fail_message :: "env \<Rightarrow> string \<Rightarrow> string" where
  "fail_message e name =
     chalk e ''red'' ''fail'' @ '' '' @ chalk e ''magenta'' ''create'' @ '' New package ''
     @ chalk e ''bgBlack'' ('' '' @ name @ '' '') @ '' not created. See error above.''"

definition success_message :: "env \<Rightarrow> string option \<Rightarrow> string \<Rightarrow> string" where
  "success_message e folder name =
     chalk e ''green'' ''success'' @ '' '' @ chalk e ''magenta'' ''create'' @ '' New package ''
     @ chalk e ''bgBlack'' ('' '' @ name @ '' '') @ '' created at ./''
     @ join [''packages'', folderName folder name] @ ''.''"

text \<open>The two lines printed before the directory is made.\<close>

definition about :: "env \<Rightarrow> string option \<Rightarrow> string \<Rightarrow> printed list" where
  "about e folder name =
     [Log (''About to write to '' @ resolve (cwd e) [dirname e, pkgPath e folder name]), Log []]"

text \<open>The four lines printed after the emission has succeeded.\<close>

definition succeeded :: "env \<Rightarrow> documents \<Rightarrow> string option \<Rightarrow> string \<Rightarrow> printed list" where
  "succeeded e d folder name =
     [Log (highlight e (pkgStr (manifest d))),
      Log (success_message e folder name),
      Log [],
      Log (''  Update the package.json here: ''
           @ chalk e ''bold'' (dir e folder name @ ''/package.json''))]"

text \<open>The \<^verbatim>\<open>catch\<close> block.\<close>

definition caught :: "env \<Rightarrow> string \<Rightarrow> error \<Rightarrow> printed list" where
  "caught e name x = [ErrorObject x, Log [], Log (fail_message e name)]"

text \<open>
  The asynchronous body. The name is validated before the \<^verbatim>\<open>try\<close> block, so that throw
  rejects the body's promise; everything after it is inside \<^verbatim>\<open>try\<close>.
\<close>

definition create :: "env \<Rightarrow> (nat \<Rightarrow> nat \<times> error option) \<Rightarrow> string \<Rightarrow> string option \<Rightarrow> fs \<Rightarrow> run" where
  "create e schedule name folder files0 =
     (let nameValidation = npmValiddate (builtins e) name in
      if \<not> validForNewPackages nameValidation then
        \<lparr> console = [], disk = files0, events = [],
          ending = Rejected (Error (invalid_name_message name nameValidation)),
          unhandledRejections = [] \<rparr>
      else
        (case prepare e files0 name folder of
           Inl x \<Rightarrow>
             \<lparr> console = caught e name x, disk = files0, events = [], ending = Returned,
               unhandledRejections = [] \<rparr>
         | Inr d \<Rightarrow>
             (case mkdirSync (cwd e) (mkdirSyncFault e) files0 (dir e folder name) of
                Inl x \<Rightarrow>
                  \<lparr> console = about e folder name @ caught e name x, disk = files0, events = [],
                    ending = Returned, unhandledRejections = [] \<rparr>
              | Inr files1 \<Rightarrow>
                  (case emit e schedule d folder name files1 of
                     (st, Some x) \<Rightarrow>
                       \<lparr> console = about e folder name @ caught e name x, disk = files st,
                         events = trace st, ending = Returned,
                         unhandledRejections = unhandled st \<rparr>
                   | (st, None) \<Rightarrow>
                       \<lparr> console = about e folder name @ succeeded e d folder name,
                         disk = files st, events = trace st, ending = Returned,
                         unhandledRejections = unhandled st \<rparr>))))"

text \<open>
  The body when the folder override is an array: \<^verbatim>\<open>argv.folder || name\<close> is the array, and
  after the name is validated \<^verbatim>\<open>join\<close> throws on it, before the \<^verbatim>\<open>try\<close> block is entered.
\<close>

definition join_array_message :: string where
  "join_array_message =
     ''The '' @ dq @ ''path'' @ dq @ '' argument must be of type string. Received an instance of Array''"

definition create_repeated :: "env \<Rightarrow> string \<Rightarrow> string list \<Rightarrow> fs \<Rightarrow> run" where
  "create_repeated e name folders files0 =
     (let nameValidation = npmValiddate (builtins e) name in
      \<lparr> console = [], disk = files0, events = [],
        ending = Rejected (if \<not> validForNewPackages nameValidation
                           then Error (invalid_name_message name nameValidation)
                           else TypeError join_array_message),
        unhandledRejections = [] \<rparr>)"

text \<open>
  The module: parse, write the colour reset, run the body. An exception that leaves
  \<^verbatim>\<open>yargs\<close> ends the module before anything is printed.
\<close>

definition main :: "env \<Rightarrow> (nat \<Rightarrow> nat \<times> error option) \<Rightarrow> parsed \<Rightarrow> fs \<Rightarrow> run" where
  "main e schedule argv files0 =
     (case argv of
        Crashed x \<Rightarrow>
          \<lparr> console = [], disk = files0, events = [], ending = Uncaught x,
            unhandledRejections = [] \<rparr>
      | Failed msg err help \<Rightarrow> fail files0 msg err help
      | Parsed name folder \<Rightarrow>
          (let r = create e schedule name folder files0
           in r\<lparr>console := Write COLORS_Reset # console r\<rparr>)
      | Repeated name folders \<Rightarrow>
          (let r = create_repeated e name folders files0
           in r\<lparr>console := Write COLORS_Reset # console r\<rparr>))"

section \<open>Notions the properties are stated with\<close>

text \<open>The keys of an object that \<^verbatim>\<open>JSON.stringify\<close> writes: those whose value has a JSON text.\<close>

fun serialized_keys :: "jsval \<Rightarrow> string list" where
  "serialized_keys (Obj kvs) = map fst (filter (\<lambda>kv. snd kv \<noteq> Undefined) kvs)"
| "serialized_keys _ = []"

fun property_names :: "jsval \<Rightarrow> string list" where
  "property_names (Obj kvs) = map fst kvs"
| "property_names _ = []"






text \<open>What a request writes, and what a task and an array element write, paths left out.\<close>

fun payload :: "fsop \<Rightarrow> string option" where
  "payload (Mkdir p) = None"
| "payload (WriteFile p c) = Some c"

definition task_payloads :: "task \<Rightarrow> task_id \<times> (error + string option) list" where
  "task_payloads t = (tid t, Inr (payload (request t)) # map (map_sum id payload) (continuation t))"

definition element_payloads :: "error + task list \<Rightarrow> error + (task_id \<times> (error + string option) list) list" where
  "element_payloads el = map_sum id (map task_payloads) el"

text \<open>The first failure among the events, and the files the successful requests leave.\<close>

fun failure :: "event \<Rightarrow> error option" where
  "failure (Issued i ope) = None"
| "failure (Settled i ope r) = r"
| "failure (Threw i x) = Some x"
| "failure (ThrewSync x) = Some x"

fun first_failure :: "event list \<Rightarrow> error option" where
  "first_failure [] = None"
| "first_failure (ev # evs) = (case failure ev of Some x \<Rightarrow> Some x | None \<Rightarrow> first_failure evs)"

fun effect :: "string \<Rightarrow> fsop \<Rightarrow> fs \<Rightarrow> fs" where
  "effect wd (Mkdir p) fsys = fsys(resolve wd [p] \<mapsto> Directory)"
| "effect wd (WriteFile p c) fsys = fsys(resolve wd [p] \<mapsto> File c)"

fun replay :: "string \<Rightarrow> event list \<Rightarrow> fs \<Rightarrow> fs" where
  "replay wd [] fsys = fsys"
| "replay wd (Settled i ope None # evs) fsys = replay wd evs (effect wd ope fsys)"
| "replay wd (_ # evs) fsys = replay wd evs fsys"

definition is_file :: "fs \<Rightarrow> string \<Rightarrow> bool" where
  "is_file fsys p = (case fsys p of Some (File c) \<Rightarrow> True | _ \<Rightarrow> False)"

text \<open>
  The path a request lands on, and the events that change what is at a path: the
  requests that succeeded on it.
\<close>

fun landing :: "string \<Rightarrow> fsop \<Rightarrow> string" where
  "landing wd (Mkdir p) = resolve wd [p]"
| "landing wd (WriteFile p c) = resolve wd [p]"

fun lands :: "string \<Rightarrow> string \<Rightarrow> event \<Rightarrow> bool" where
  "lands wd key (Settled i ope None) = (landing wd ope = key)"
| "lands wd key _ = False"

text \<open>The task a choice of the environment settles, and the answer the request gets.\<close>

definition picked :: "nat \<times> error option \<Rightarrow> emission \<Rightarrow> task" where
  "picked c st = pool st ! (fst c mod length (pool st))"

definition answer :: "string \<Rightarrow> nat \<times> error option \<Rightarrow> emission \<Rightarrow> error option" where
  "answer wd c st = fst (perform wd (request (picked c st)) (snd c) (files st))"

text \<open>
  The requests a state has issued or may still issue: those in its trace and those its
  tasks hold in their continuations.
\<close>

definition reachable_requests :: "emission \<Rightarrow> (task_id \<times> fsop) set" where
  "reachable_requests st =
     {(i, ope). Issued i ope \<in> set (trace st)}
     \<union> {(tid t, ope) | t ope. t \<in> set (pool st) \<and> Inr ope \<in> set (continuation t)}"

text \<open>
  \<open>follows ev Q evs\<close>: in the chronological list \<open>evs\<close>, no event that satisfies \<open>Q\<close> comes
  before the first occurrence of \<open>ev\<close>.
\<close>

fun follows :: "event \<Rightarrow> (event \<Rightarrow> bool) \<Rightarrow> event list \<Rightarrow> bool" where
  "follows ev Q [] = True"
| "follows ev Q (x # xs) = (x = ev \<or> (\<not> Q x \<and> follows ev Q xs))"

text \<open>A later request of a task: one issued by the task that is not its first request.\<close>

definition later_request :: "task_id \<Rightarrow> fsop \<Rightarrow> event \<Rightarrow> bool" where
  "later_request i first ev = (\<exists>ope. ev = Issued i ope \<and> ope \<noteq> first)"

section \<open>A concrete run\<close>

text \<open>
  An environment to evaluate the script in: the repository at \<^verbatim>\<open>/repo\<close>, a formatter that
  marks what it was given, no colours, and a root manifest with the development
  dependencies of the monorepo.
\<close>

definition example_root :: jsval where
  "example_root =
     Obj [(''name'', Str ''root''),
          (''author'', Str ''A. Maintainer''),
          (''devDependencies'', Obj [
             (''@types/mocha'', Str ''8.2.0''),
             (''cross-env'', Str ''7.0.3''),
             (''mocha'', Str ''8.2.1''),
             (''nyc'', Str ''15.1.0''),
             (''ts-node'', Str ''9.1.1''),
             (''typescript'', Str ''4.1.3'')])]"

definition example_env :: env where
  "example_env =
     \<lparr> dirname = ''/repo/scripts'',
       cwd = ''/repo'',
       builtins = [''fs'', ''http'', ''path''],
       resolveConfig = Inr Null,
       userName = Str ''dev'',
       rootPackageJson = Inr example_root,
       format = (\<lambda>parser config text. Inr (''formatted as '' @ parser)),
       camelCase = (\<lambda>s. s),
       chalk = (\<lambda>style text. text),
       highlight = (\<lambda>text. text),
       readFault = None,
       mkdirSyncFault = None \<rparr>"

definition example_files :: fs where
  "example_files = [''/repo/LICENSE'' \<mapsto> File ''MIT'', ''/repo/packages'' \<mapsto> Directory]"

text \<open>The documents of the example run, and its files once the target directory is made.\<close>

definition example_documents :: "string option \<Rightarrow> documents" where
  "example_documents folder =
     \<lparr> LICENSE = ''MIT'', prettierConfig = Null,
       manifest = pkg_object ''widgets'' folder (Str ''dev'')
         [Str ''8.2.0'', Str ''7.0.3'', Str ''8.2.1'', Str ''15.1.0'', Str ''9.1.1'', Str ''4.1.3''] \<rparr>"

definition example_made :: fs where
  "example_made = example_files(''/repo/packages/widgets'' \<mapsto> Directory)"

text \<open>
  Schedules: the requests in their order; the same with a fault on the second completion;
  the \<^verbatim>\<open>tests\<close> chain first.
\<close>

definition in_order :: "nat \<Rightarrow> nat \<times> error option" where
  "in_order i = (0, None)"

definition failing_second :: "nat \<Rightarrow> nat \<times> error option" where
  "failing_second i = (0, if i = 1 then Some (SystemError ''ENOSPC'' ''write'') else None)"

definition tests_first :: "nat \<Rightarrow> nat \<times> error option" where
  "tests_first i = (if i = 0 then 3 else 0, None)"

section \<open>The manifest and the target directory\<close>

lemma pkg_Inr:
  assumes "pkg name folder a root = Inr m"
  obtains author deps vs where
    "m = pkg_object name folder author vs"
    "member root ''devDependencies'' = Inr deps"
    "map (member deps) devDependencyKeys = map Inr vs"
    "(if truthy a then Inr a else member root ''author'') = Inr author"
  using assms
  by (auto simp: pkg_def bind_def devDependency_def devDependencyKeys_def split: sum.splits if_splits)

lemma prepare_Inr:
  assumes "prepare e files0 name folder = Inr d"
  obtains license config root where
    "readFile (cwd e) (readFault e) files0 (join [workspaceDir e, ''LICENSE'']) = Inr license"
    "resolveConfig e = Inr config"
    "rootPackageJson e = Inr root"
    "pkg name folder (userName e) root = Inr (manifest d)"
    "LICENSE d = license" "prettierConfig d = config"
  using assms
  by (auto simp: prepare_def bind_def split: sum.splits)

lemma member_pkg_object_name:
  "member (pkg_object name folder author vs) ''name'' = Inr (Str (packageName name))"
  by (simp add: pkg_object_def)

lemma example_prepare:
  "prepare example_env example_files ''widgets'' folder =
     Inr \<lparr> LICENSE = ''MIT'', prettierConfig = Null,
           manifest = pkg_object ''widgets'' folder (Str ''dev'')
             [Str ''8.2.0'', Str ''7.0.3'', Str ''8.2.1'', Str ''15.1.0'', Str ''9.1.1'', Str ''4.1.3''] \<rparr>"
  by (simp add: prepare_def bind_def example_env_def example_files_def readFile_def workspaceDir_def
      join_def normalize_def normalizeString_def isAbsolute_def resolve_def pkg_def devDependency_def
      example_root_def)

text \<open>
  Claim C1, as the code has it: the manifest of every run names the package
  \<^verbatim>\<open>@ganache/<name>\<close>, whatever the folder override; the target directory is
  \<^verbatim>\<open>packages/<folder>\<close> under the workspace when the override is given and not empty, and
  \<^verbatim>\<open>packages/<name>\<close> when it is absent or empty.
\<close>

theorem C1_manifest_name_and_directory:
  "(prepare e files0 name folder = Inr d \<longrightarrow>
      member (manifest d) ''name'' = Inr (Str (''@ganache/'' @ name)))
   \<and> (folder = Some f \<and> f \<noteq> [] \<longrightarrow>
      dir e folder name = join [workspaceDir e, ''packages'', f])
   \<and> (folder = None \<or> folder = Some [] \<longrightarrow>
      dir e folder name = join [workspaceDir e, ''packages'', name])"
proof (intro conjI impI)
  assume "prepare e files0 name folder = Inr d"
  then obtain root where "pkg name folder (userName e) root = Inr (manifest d)"
    by (rule prepare_Inr)
  then obtain author vs where "manifest d = pkg_object name folder author vs"
    by (rule pkg_Inr)
  then show "member (manifest d) ''name'' = Inr (Str (''@ganache/'' @ name))"
    by (simp add: member_pkg_object_name packageName_def)
next
  assume "folder = Some f \<and> f \<noteq> []"
  then show "dir e folder name = join [workspaceDir e, ''packages'', f]"
    by (simp add: dir_def folderName_def)
next
  assume "folder = None \<or> folder = Some []"
  then show "dir e folder name = join [workspaceDir e, ''packages'', name]"
    by (auto simp: dir_def folderName_def)
qed

text \<open>
  The two scenarios of the specification: \<^verbatim>\<open>widgets\<close> with the folder \<^verbatim>\<open>widgets-pkg\<close>, and
  \<^verbatim>\<open>widgets\<close> alone.
\<close>

theorem C1_scenarios_witness:
  "(\<exists>d. prepare example_env example_files ''widgets'' (Some ''widgets-pkg'') = Inr d
        \<and> member (manifest d) ''name'' = Inr (Str ''@ganache/widgets''))
   \<and> dir example_env (Some ''widgets-pkg'') ''widgets'' = ''/repo/packages/widgets-pkg''
   \<and> dir example_env None ''widgets'' = ''/repo/packages/widgets''"
proof -
  let ?d = "\<lparr> LICENSE = ''MIT'', prettierConfig = Null,
           manifest = pkg_object ''widgets'' (Some ''widgets-pkg'') (Str ''dev'')
             [Str ''8.2.0'', Str ''7.0.3'', Str ''8.2.1'', Str ''15.1.0'', Str ''9.1.1'', Str ''4.1.3''] \<rparr>"
  have p: "prepare example_env example_files ''widgets'' (Some ''widgets-pkg'') = Inr ?d"
    by (rule example_prepare)
  have j1: "join [workspaceDir example_env, ''packages'', ''widgets-pkg''] = ''/repo/packages/widgets-pkg''"
    by code_simp
  have j2: "join [workspaceDir example_env, ''packages'', ''widgets''] = ''/repo/packages/widgets''"
    by code_simp
  from C1_manifest_name_and_directory
         [of example_env example_files "''widgets''" "Some ''widgets-pkg''" ?d "''widgets-pkg''"]
       C1_manifest_name_and_directory
         [of example_env example_files "''widgets''" None ?d "''x''"]
       p j1 j2
  show ?thesis by simp
qed

text \<open>
  An override that is given but empty, as \<^verbatim>\<open>--folder ""\<close> gives it, is not used: the
  directory is that of the name, not \<^verbatim>\<open>packages/\<close> followed by the override.
\<close>

theorem C1_empty_folder_counterexample:
  "dir example_env (Some []) ''widgets'' = ''/repo/packages/widgets''
   \<and> join [workspaceDir example_env, ''packages'', []] = ''/repo/packages''
   \<and> dir example_env (Some []) ''widgets'' \<noteq> join [workspaceDir example_env, ''packages'', []]"
  by code_simp

section \<open>The report of an invalid name\<close>

text \<open>
  Claim C4 at the name \<^verbatim>\<open>Widgets\<close>: the name breaks the rule against capital letters, which
  the validator reports as a warning. The script rejects the name and prints the
  \<open>errors\<close> of the validation, which has none, so the report ends with \<^verbatim>\<open>undefined\<close> and
  carries no message of the rule.
\<close>

theorem C4_capital_letters_report:
  "ending (main example_env in_order (Parsed ''Widgets'' None) example_files)
     = Rejected (Error (''the name '' @ dq @ ''Widgets'' @ dq
                        @ '' is not a valid npm package name:'' @ nl @ ''undefined''))
   \<and> warnings (npmValiddate (builtins example_env) ''Widgets'')
       = Some [''name can no longer contain capital letters'']
   \<and> errors (npmValiddate (builtins example_env) ''Widgets'') = None"
  by code_simp

section \<open>The development dependencies\<close>

lemma member_pkg_object_devDependencies:
  "member (pkg_object name folder author vs) ''devDependencies'' = Inr (Obj (zip devDependencyKeys vs))"
  by (simp add: pkg_object_def)

lemma serialized_keys_zip:
  "map (member deps) ks = map Inr vs \<Longrightarrow>
   serialized_keys (Obj (zip ks vs)) = filter (\<lambda>k. member deps k \<noteq> Inr Undefined) ks"
proof (induction ks arbitrary: vs)
  case Nil
  then show ?case by simp
next
  case (Cons k ks)
  then obtain v vs' where vs: "vs = v # vs'" by (cases vs) auto
  with Cons.prems have "member deps k = Inr v" "map (member deps) ks = map Inr vs'" by auto
  with Cons.IH [of vs'] vs show ?case by auto
qed

text \<open>
  Claim C5, as the code has it: the manifest's \<^verbatim>\<open>devDependencies\<close> has the six properties
  \<^verbatim>\<open>@types/mocha\<close>, \<^verbatim>\<open>cross-env\<close>, \<^verbatim>\<open>mocha\<close>, \<^verbatim>\<open>nyc\<close>, \<^verbatim>\<open>ts-node\<close> and \<^verbatim>\<open>typescript\<close>, in this order,
  each holding what the root manifest's \<^verbatim>\<open>devDependencies\<close> holds under the same key. A key
  the root manifest lacks holds \<^verbatim>\<open>undefined\<close>, and the serialised manifest leaves it out.
\<close>

theorem C5_devDependencies:
  "pkg name folder a root = Inr m \<Longrightarrow>
     \<exists>deps vs. member root ''devDependencies'' = Inr deps
       \<and> map (member deps) [''@types/mocha'', ''cross-env'', ''mocha'', ''nyc'', ''ts-node'', ''typescript''] = map Inr vs
       \<and> member m ''devDependencies''
           = Inr (Obj (zip [''@types/mocha'', ''cross-env'', ''mocha'', ''nyc'', ''ts-node'', ''typescript''] vs))
       \<and> (\<forall>d. member m ''devDependencies'' = Inr d \<longrightarrow>
             serialized_keys d
               = filter (\<lambda>k. member deps k \<noteq> Inr Undefined)
                   [''@types/mocha'', ''cross-env'', ''mocha'', ''nyc'', ''ts-node'', ''typescript''])"
proof -
  assume "pkg name folder a root = Inr m"
  then obtain author deps vs where
    m: "m = pkg_object name folder author vs" and
    d: "member root ''devDependencies'' = Inr deps" and
    v: "map (member deps) devDependencyKeys = map Inr vs"
    by (rule pkg_Inr)
  from v have "serialized_keys (Obj (zip devDependencyKeys vs))
      = filter (\<lambda>k. member deps k \<noteq> Inr Undefined) devDependencyKeys"
    by (rule serialized_keys_zip)
  with m d v show ?thesis
    unfolding devDependencyKeys_def
    by (intro exI [of _ deps] exI [of _ vs]) (simp add: member_pkg_object_devDependencies devDependencyKeys_def)
qed

lemma example_pkg:
  "pkg ''widgets'' None (Str ''dev'') example_root =
     Inr (pkg_object ''widgets'' None (Str ''dev'')
             [Str ''8.2.0'', Str ''7.0.3'', Str ''8.2.1'', Str ''15.1.0'', Str ''9.1.1'', Str ''4.1.3''])"
  by (simp add: pkg_def bind_def devDependency_def example_root_def)

text \<open>With the development dependencies of the example root manifest, all six are copied.\<close>

theorem C5_witness:
  "\<exists>m. pkg ''widgets'' None (Str ''dev'') example_root = Inr m
     \<and> member m ''devDependencies''
           = Inr (Obj [(''@types/mocha'', Str ''8.2.0''), (''cross-env'', Str ''7.0.3''), (''mocha'', Str ''8.2.1''),
                       (''nyc'', Str ''15.1.0''), (''ts-node'', Str ''9.1.1''), (''typescript'', Str ''4.1.3'')])"
proof -
  from C5_devDependencies [OF example_pkg]
  obtain deps vs where
    d: "member example_root ''devDependencies'' = Inr deps" and
    v: "map (member deps) [''@types/mocha'', ''cross-env'', ''mocha'', ''nyc'', ''ts-node'', ''typescript''] = map Inr vs" and
    m: "member (pkg_object ''widgets'' None (Str ''dev'')
             [Str ''8.2.0'', Str ''7.0.3'', Str ''8.2.1'', Str ''15.1.0'', Str ''9.1.1'', Str ''4.1.3'']) ''devDependencies''
           = Inr (Obj (zip [''@types/mocha'', ''cross-env'', ''mocha'', ''nyc'', ''ts-node'', ''typescript''] vs))"
    by blast
  from d have "deps = Obj [
             (''@types/mocha'', Str ''8.2.0''),
             (''cross-env'', Str ''7.0.3''),
             (''mocha'', Str ''8.2.1''),
             (''nyc'', Str ''15.1.0''),
             (''ts-node'', Str ''9.1.1''),
             (''typescript'', Str ''4.1.3'')]" by (simp add: example_root_def)
  with v have "vs = [Str ''8.2.0'', Str ''7.0.3'', Str ''8.2.1'', Str ''15.1.0'', Str ''9.1.1'', Str ''4.1.3'']"
    by auto
  with m example_pkg show ?thesis by simp
qed

text \<open>
  The sixth key: \<^verbatim>\<open>@types/mocha\<close> is copied as well, and it is none of the test runner, the
  coverage tool, the type checker, the test transpiler and the environment setter.
\<close>

theorem C5_six_keys_counterexample:
  "\<exists>m d. pkg ''widgets'' None (Str ''dev'') example_root = Inr m
     \<and> member m ''devDependencies'' = Inr d
     \<and> serialized_keys d = [''@types/mocha'', ''cross-env'', ''mocha'', ''nyc'', ''ts-node'', ''typescript'']
     \<and> length (serialized_keys d) = 6
     \<and> ''@types/mocha'' \<notin> set [''mocha'', ''nyc'', ''typescript'', ''ts-node'', ''cross-env'']"
  by (simp add: example_pkg member_pkg_object_devDependencies devDependencyKeys_def)

section \<open>What the folder override changes\<close>

lemma member_pkg_object_other:
  "k \<noteq> ''homepage'' \<Longrightarrow> k \<noteq> ''repository'' \<Longrightarrow>
   member (pkg_object name folder1 author vs) k = member (pkg_object name folder2 author vs) k"
  by (simp add: pkg_object_def)

lemma member_pkg_object_repository:
  "member (pkg_object name folder author vs) ''repository'' =
     Inr (Obj [(''type'', Str ''git''),
               (''url'', Str ''https://github.com/trufflesuite/ganache.git''),
               (''directory'', Str (''packages/'' @ folderName folder name))])"
  by (simp add: pkg_object_def)

lemma property_names_pkg_object:
  "property_names (pkg_object name folder author vs) =
     [''name'', ''publishConfig'', ''version'', ''description'', ''author'', ''homepage'', ''license'',
      ''main'', ''typings'', ''source'', ''directories'', ''files'', ''repository'', ''scripts'',
      ''bugs'', ''keywords'', ''devDependencies'']"
  by (simp add: pkg_object_def)

lemma headerdoc_pkg_object:
  "headerdoc name (pkg_object name folder1 author vs) = headerdoc name (pkg_object name folder2 author vs)"
  by (simp add: headerdoc_def pkg_object_def)

lemma prepare_same_inputs:
  assumes "prepare e files0 name folder1 = Inr d1" and "prepare e files0 name folder2 = Inr d2"
  obtains author vs where
    "manifest d1 = pkg_object name folder1 author vs"
    "manifest d2 = pkg_object name folder2 author vs"
    "LICENSE d1 = LICENSE d2" "prettierConfig d1 = prettierConfig d2"
proof -
  from assms(1) obtain l1 c1 r1 where
    a1: "readFile (cwd e) (readFault e) files0 (join [workspaceDir e, ''LICENSE'']) = Inr l1"
        "resolveConfig e = Inr c1" "rootPackageJson e = Inr r1"
        "pkg name folder1 (userName e) r1 = Inr (manifest d1)" "LICENSE d1 = l1" "prettierConfig d1 = c1"
    by (rule prepare_Inr)
  from assms(2) obtain l2 c2 r2 where
    a2: "readFile (cwd e) (readFault e) files0 (join [workspaceDir e, ''LICENSE'']) = Inr l2"
        "resolveConfig e = Inr c2" "rootPackageJson e = Inr r2"
        "pkg name folder2 (userName e) r2 = Inr (manifest d2)" "LICENSE d2 = l2" "prettierConfig d2 = c2"
    by (rule prepare_Inr)
  from a1 a2 have same: "l1 = l2" "c1 = c2" "r1 = r2" by simp_all
  from a1(4) obtain au1 de1 vs1 where
    m1: "manifest d1 = pkg_object name folder1 au1 vs1"
        "member r1 ''devDependencies'' = Inr de1"
        "map (member de1) devDependencyKeys = map Inr vs1"
        "(if truthy (userName e) then Inr (userName e) else member r1 ''author'') = Inr au1"
    by (rule pkg_Inr)
  from a2(4) obtain au2 de2 vs2 where
    m2: "manifest d2 = pkg_object name folder2 au2 vs2"
        "member r2 ''devDependencies'' = Inr de2"
        "map (member de2) devDependencyKeys = map Inr vs2"
        "(if truthy (userName e) then Inr (userName e) else member r2 ''author'') = Inr au2"
    by (rule pkg_Inr)
  from m1(2) m2(2) same have "de1 = de2" by simp
  with m1(3) m2(3) have "map Inr vs1 = (map Inr vs2 :: (error + jsval) list)" by simp
  then have "vs1 = vs2" by (simp add: inj_map_eq_map)
  moreover from m1(4) m2(4) same have "au1 = au2" by (auto split: if_splits)
  ultimately show thesis using that m1(1) m2(1) a1(5,6) a2(5,6) same by simp
qed

lemma element_payloads_single:
  "element_payloads (bind r (\<lambda>w. Inr (single i w))) = map_sum id (\<lambda>c. [(i, [Inr c])]) (map_sum id payload r)"
  by (cases r) (simp_all add: element_payloads_def task_payloads_def single_def bind_def)

lemma element_payloads_readme:
  "element_payloads (bind r (\<lambda>text. Inr (single i (WriteFile p text))))
     = map_sum id (\<lambda>text. [(i, [Inr (Some text)])]) r"
  by (cases r) (simp_all add: element_payloads_def task_payloads_def single_def bind_def)

text \<open>
  Claim C10: two runs that differ only in the folder override build the same documents,
  but for the manifest. Every element of the array handed to \<^verbatim>\<open>Promise.all\<close> writes the same
  texts in both runs, the seventh apart, which writes the manifest; the two manifests
  have the same properties, equal but for \<^verbatim>\<open>homepage\<close> and \<^verbatim>\<open>repository\<close>, and the two
  \<^verbatim>\<open>repository\<close> objects are equal but for \<^verbatim>\<open>directory\<close>.
\<close>

theorem C10_folder_changes_only_the_manifest:
  assumes "prepare e files0 name folder1 = Inr d1" and "prepare e files0 name folder2 = Inr d2"
  shows "take 6 (map element_payloads (elements e d1 folder1 name))
           = take 6 (map element_payloads (elements e d2 folder2 name))
       \<and> drop 7 (map element_payloads (elements e d1 folder1 name))
           = drop 7 (map element_payloads (elements e d2 folder2 name))
       \<and> length (elements e d1 folder1 name) = 8
       \<and> map element_payloads (elements e d1 folder1 name) ! 6
           = Inr [(PackageJson, [Inr (Some (pkgStr (manifest d1)))])]
       \<and> property_names (manifest d1) = property_names (manifest d2)
       \<and> (\<forall>k. k \<noteq> ''homepage'' \<and> k \<noteq> ''repository'' \<longrightarrow>
             member (manifest d1) k = member (manifest d2) k)
       \<and> (\<exists>r1 r2. member (manifest d1) ''repository'' = Inr r1
             \<and> member (manifest d2) ''repository'' = Inr r2
             \<and> property_names r1 = property_names r2
             \<and> (\<forall>k. k \<noteq> ''directory'' \<longrightarrow> member r1 k = member r2 k))"
proof -
  from assms obtain author vs where
    m1: "manifest d1 = pkg_object name folder1 author vs" and
    m2: "manifest d2 = pkg_object name folder2 author vs" and
    l: "LICENSE d1 = LICENSE d2" and c: "prettierConfig d1 = prettierConfig d2"
    by (rule prepare_same_inputs)
  have h: "headerdoc name (manifest d1) = headerdoc name (manifest d2)"
    by (simp add: m1 m2 headerdoc_pkg_object)
  have idx: "map_sum id payload (initIndex e d1 folder1 name) = map_sum id payload (initIndex e d2 folder2 name)"
    by (simp add: initIndex_def h c bind_def split: sum.splits)
  have tst: "map_sum id payload (initTests e d1 folder1 name) = map_sum id payload (initTests e d2 folder2 name)"
    by (simp add: initTests_def c bind_def split: sum.splits)
  have sr: "map_sum id payload (initSrc e d1 folder1 name) = map_sum id payload (initSrc e d2 folder2 name)"
    by (simp add: initSrc_def c bind_def split: sum.splits)
  have t6: "take 6 (map element_payloads (elements e d1 folder1 name))
           = take 6 (map element_payloads (elements e d2 folder2 name))"
    using idx tst sr
    by (simp add: elements_def element_payloads_single element_payloads_readme l c)
       (simp add: element_payloads_def task_payloads_def initRootFiles_def single_def l)
  have d7: "drop 7 (map element_payloads (elements e d1 folder1 name))
           = drop 7 (map element_payloads (elements e d2 folder2 name))"
    by (simp add: elements_def element_payloads_def task_payloads_def single_def)
  have len: "length (elements e d1 folder1 name) = 8"
    by (simp add: elements_def)
  have six: "map element_payloads (elements e d1 folder1 name) ! 6
           = Inr [(PackageJson, [Inr (Some (pkgStr (manifest d1)))])]"
    by (simp add: elements_def element_payloads_def task_payloads_def single_def)
  have names: "property_names (manifest d1) = property_names (manifest d2)"
    by (simp add: m1 m2 property_names_pkg_object)
  have others: "\<forall>k. k \<noteq> ''homepage'' \<and> k \<noteq> ''repository'' \<longrightarrow>
             member (manifest d1) k = member (manifest d2) k"
    by (simp add: m1 m2 member_pkg_object_other)
  have repo: "\<exists>r1 r2. member (manifest d1) ''repository'' = Inr r1
             \<and> member (manifest d2) ''repository'' = Inr r2
             \<and> property_names r1 = property_names r2
             \<and> (\<forall>k. k \<noteq> ''directory'' \<longrightarrow> member r1 k = member r2 k)"
    by (simp add: m1 m2 member_pkg_object_repository)
  from t6 d7 len six names others repo show ?thesis by blast
qed

text \<open>The run for \<^verbatim>\<open>widgets\<close> with and without the folder \<^verbatim>\<open>widgets-pkg\<close>.\<close>

theorem C10_witness:
  "\<exists>d1 d2. prepare example_env example_files ''widgets'' None = Inr d1
     \<and> prepare example_env example_files ''widgets'' (Some ''widgets-pkg'') = Inr d2
     \<and> take 6 (map element_payloads (elements example_env d1 None ''widgets''))
         = take 6 (map element_payloads (elements example_env d2 (Some ''widgets-pkg'') ''widgets''))
     \<and> drop 7 (map element_payloads (elements example_env d1 None ''widgets''))
         = drop 7 (map element_payloads (elements example_env d2 (Some ''widgets-pkg'') ''widgets''))
     \<and> property_names (manifest d1) = property_names (manifest d2)
     \<and> member (manifest d1) ''keywords'' = member (manifest d2) ''keywords''"
proof -
  have p1: "prepare example_env example_files ''widgets'' None =
     Inr \<lparr> LICENSE = ''MIT'', prettierConfig = Null,
           manifest = pkg_object ''widgets'' None (Str ''dev'')
             [Str ''8.2.0'', Str ''7.0.3'', Str ''8.2.1'', Str ''15.1.0'', Str ''9.1.1'', Str ''4.1.3''] \<rparr>"
    by (rule example_prepare)
  have p2: "prepare example_env example_files ''widgets'' (Some ''widgets-pkg'') =
     Inr \<lparr> LICENSE = ''MIT'', prettierConfig = Null,
           manifest = pkg_object ''widgets'' (Some ''widgets-pkg'') (Str ''dev'')
             [Str ''8.2.0'', Str ''7.0.3'', Str ''8.2.1'', Str ''15.1.0'', Str ''9.1.1'', Str ''4.1.3''] \<rparr>"
    by (rule example_prepare)
  from C10_folder_changes_only_the_manifest [OF p1 p2] p1 p2
  show ?thesis by simp
qed

section \<open>Requests and the files\<close>

lemma perform_failed:
  "fst (perform wd ope fault fsys) = Some x \<Longrightarrow> snd (perform wd ope fault fsys) = fsys"
  by (cases "(wd, ope, fault, fsys)" rule: perform.cases)
     (auto split: if_splits option.splits node.splits)

lemma perform_succeeded:
  "fst (perform wd ope fault fsys) = None \<Longrightarrow> snd (perform wd ope fault fsys) = effect wd ope fsys"
  by (cases "(wd, ope, fault, fsys)" rule: perform.cases)
     (auto split: if_splits option.splits node.splits)

lemma perform_keeps_files: "is_file fsys p \<Longrightarrow> is_file (snd (perform wd ope fault fsys)) p"
  by (cases "(wd, ope, fault, fsys)" rule: perform.cases)
     (auto simp: is_file_def lookup_def split: if_splits option.splits node.splits)

lemma perform_written:
  "fst (perform wd (WriteFile p c) fault fsys) = None \<Longrightarrow>
   is_file (snd (perform wd (WriteFile p c) fault fsys)) (resolve wd [p])"
  by (cases fault) (auto simp: is_file_def split: if_splits option.splits node.splits)

lemma perform_Mkdir:
  "lookup fsys (resolve wd [p]) = None \<Longrightarrow> lookup fsys (parent (resolve wd [p])) = Some Directory \<Longrightarrow>
   perform wd (Mkdir p) None fsys = (None, fsys(resolve wd [p] \<mapsto> Directory))"
  by simp

lemma perform_WriteFile:
  "lookup fsys (resolve wd [p]) \<noteq> Some Directory \<Longrightarrow>
   lookup fsys (parent (resolve wd [p])) = Some Directory \<Longrightarrow>
   perform wd (WriteFile p c) None fsys = (None, fsys(resolve wd [p] \<mapsto> File c))"
  by simp

section \<open>One completion\<close>

lemma picked_in_pool: "pool st \<noteq> [] \<Longrightarrow> picked c st \<in> set (pool st)"
  by (simp add: picked_def)

lemma files_reject [simp]: "files (reject aw tr i x st) = files st"
  by (simp add: reject_def split: option.splits)

lemma trace_reject [simp]: "trace (reject aw tr i x st) = trace st"
  by (simp add: reject_def split: option.splits)

lemma pool_reject [simp]: "pool (reject aw tr i x st) = pool st"
  by (simp add: reject_def split: option.splits)

lemma rejection_reject_awaited [simp]:
  "rejection (reject True tr i x st) = (case rejection st of None \<Rightarrow> Some x | Some y \<Rightarrow> Some y)"
  by (simp add: reject_def split: option.splits)

lemma unhandled_reject_awaited [simp]: "unhandled (reject True tr i x st) = unhandled st"
  by (simp add: reject_def split: option.splits)

lemma files_settle:
  "files (settle wd aw c st) = snd (perform wd (request (picked c st)) (snd c) (files st))"
  by (simp add: settle_def picked_def Let_def split: option.splits list.splits sum.splits)

lemma trace_settle:
  "trace (settle wd aw c st) =
     trace st @ Settled (tid (picked c st)) (request (picked c st)) (answer wd c st)
       # (case answer wd c st of
            Some x \<Rightarrow> []
          | None \<Rightarrow> (case continuation (picked c st) of
                        [] \<Rightarrow> []
                      | Inl x # rest \<Rightarrow> [Threw (tid (picked c st)) x]
                      | Inr ope # rest \<Rightarrow> [Issued (tid (picked c st)) ope]))"
  by (simp add: settle_def picked_def answer_def Let_def split: option.splits list.splits sum.splits)

lemma pool_settle:
  "pool (settle wd aw c st) =
     (let k = fst c mod length (pool st) in
      case answer wd c st of
        Some x \<Rightarrow> take k (pool st) @ drop (Suc k) (pool st)
      | None \<Rightarrow> (case continuation (picked c st) of
                    [] \<Rightarrow> take k (pool st) @ drop (Suc k) (pool st)
                  | Inl x # rest \<Rightarrow> take k (pool st) @ drop (Suc k) (pool st)
                  | Inr ope # rest \<Rightarrow>
                      (pool st)[k := (picked c st)\<lparr>request := ope, continuation := rest\<rparr>]))"
  by (simp add: settle_def picked_def answer_def Let_def split: option.splits list.splits sum.splits)

lemma rejection_settle_awaited:
  "rejection (settle wd True c st) =
     (case rejection st of
        Some y \<Rightarrow> Some y
      | None \<Rightarrow> (case answer wd c st of
                    Some x \<Rightarrow> Some x
                  | None \<Rightarrow> (case continuation (picked c st) of
                                Inl x # rest \<Rightarrow> Some x
                              | _ \<Rightarrow> None)))"
  by (simp add: settle_def picked_def answer_def Let_def split: option.splits list.splits sum.splits)

lemma unhandled_settle_awaited: "unhandled (settle wd True c st) = unhandled st"
  by (simp add: settle_def Let_def split: option.splits list.splits sum.splits)

text \<open>A property that every completion keeps holds when the loop has drained.\<close>

lemma drain_invariant:
  assumes "I st" and "\<And>s c. I s \<Longrightarrow> pool s \<noteq> [] \<Longrightarrow> I (settle wd aw c s)"
  shows "I (drain n wd aw schedule i st)"
  using assms(1)
proof (induction n arbitrary: i st)
  case 0
  then show ?case by simp
next
  case (Suc n)
  then show ?case by (simp add: assms(2))
qed

section \<open>The loop drains\<close>

lemma requests_left_remove:
  assumes "k < length ts"
  shows "requests_left (take k ts @ drop (Suc k) ts) + Suc (length (continuation (ts ! k))) = requests_left ts"
proof -
  have "ts = take k ts @ ts ! k # drop (Suc k) ts"
    using assms by (rule id_take_nth_drop)
  then have "requests_left ts = requests_left (take k ts @ ts ! k # drop (Suc k) ts)"
    by simp
  then show ?thesis by (simp add: requests_left_def)
qed

lemma requests_left_update:
  assumes "k < length ts"
  shows "requests_left (ts[k := t]) + Suc (length (continuation (ts ! k)))
           = requests_left ts + Suc (length (continuation t))"
proof -
  have "ts[k := t] = take k ts @ t # drop (Suc k) ts"
    using assms by (rule upd_conv_take_nth_drop)
  moreover have "requests_left (take k ts @ t # drop (Suc k) ts)
     = requests_left (take k ts @ drop (Suc k) ts) + Suc (length (continuation t))"
    by (simp add: requests_left_def)
  ultimately show ?thesis using requests_left_remove [OF assms] by simp
qed

lemma settle_decreases:
  assumes "pool st \<noteq> []"
  shows "requests_left (pool (settle wd aw c st)) < requests_left (pool st)"
proof -
  let ?k = "fst c mod length (pool st)"
  have k: "?k < length (pool st)" using assms by simp
  have rm: "requests_left (take ?k (pool st) @ drop (Suc ?k) (pool st)) < requests_left (pool st)"
    using requests_left_remove [OF k] by linarith
  show ?thesis
  proof (cases "answer wd c st")
    case (Some x)
    then show ?thesis using rm by (simp add: pool_settle Let_def)
  next
    case None
    show ?thesis
    proof (cases "continuation (picked c st)")
      case Nil
      then show ?thesis using rm None by (simp add: pool_settle Let_def)
    next
      case (Cons s rest)
      show ?thesis
      proof (cases s)
        case (Inl x)
        then show ?thesis using rm None Cons by (simp add: pool_settle Let_def)
      next
        case (Inr ope)
        have "continuation (pool st ! ?k) = Inr ope # rest"
          using Cons Inr by (simp add: picked_def)
        with requests_left_update [OF k, of "(picked c st)\<lparr>request := ope, continuation := rest\<rparr>"]
        have "requests_left ((pool st)[?k := (picked c st)\<lparr>request := ope, continuation := rest\<rparr>])
                < requests_left (pool st)"
          by simp
        then show ?thesis using None Cons Inr by (simp add: pool_settle Let_def)
      qed
    qed
  qed
qed

lemma requests_left_0: "requests_left ts = 0 \<Longrightarrow> ts = []"
  by (cases ts) (simp_all add: requests_left_def)

lemma drain_drains:
  "requests_left (pool st) \<le> n \<Longrightarrow> pool (drain n wd aw schedule i st) = []"
proof (induction n arbitrary: i st)
  case 0
  then show ?case by (simp add: requests_left_0)
next
  case (Suc n)
  show ?case
  proof (cases "pool st = []")
    case True
    then show ?thesis by simp
  next
    case False
    then have "requests_left (pool (settle wd aw (schedule i) st)) \<le> n"
      using settle_decreases [OF False, of wd aw "schedule i"] Suc.prems by linarith
    then show ?thesis using False Suc.IH by simp
  qed
qed

section \<open>The files are those the successful requests leave\<close>

lemma replay_append: "replay wd (tr @ evs) fsys = replay wd evs (replay wd tr fsys)"
  by (induction wd tr fsys rule: replay.induct) simp_all

lemma first_failure_append:
  "first_failure (tr @ evs) = (case first_failure tr of Some x \<Rightarrow> Some x | None \<Rightarrow> first_failure evs)"
  by (induction tr) (simp_all split: option.splits)

lemma settle_replay:
  assumes "files st = replay wd (trace st) fsys"
  shows "files (settle wd aw c st) = replay wd (trace (settle wd aw c st)) fsys"
proof (cases "answer wd c st")
  case None
  then have "snd (perform wd (request (picked c st)) (snd c) (files st))
               = effect wd (request (picked c st)) (files st)"
    by (simp add: answer_def perform_succeeded)
  then show ?thesis using assms None
    by (simp add: files_settle trace_settle replay_append split: list.splits sum.splits)
next
  case (Some x)
  then have "snd (perform wd (request (picked c st)) (snd c) (files st)) = files st"
    by (simp add: answer_def perform_failed)
  then show ?thesis using assms Some
    by (simp add: files_settle trace_settle replay_append)
qed

lemma drain_replay:
  "files st = replay wd (trace st) fsys \<Longrightarrow>
   files (drain n wd aw schedule i st) = replay wd (trace (drain n wd aw schedule i st)) fsys"
  by (rule drain_invariant [where I = "\<lambda>s. files s = replay wd (trace s) fsys"]) (simp_all add: settle_replay)

lemma effect_elsewhere: "landing wd ope \<noteq> key \<Longrightarrow> effect wd ope fsys key = fsys key"
  by (cases ope) auto

lemma replay_elsewhere:
  "\<forall>ev \<in> set evs. \<not> lands wd key ev \<Longrightarrow> replay wd evs fsys key = fsys key"
  by (induction wd evs fsys rule: replay.induct) (auto simp: effect_elsewhere)

lemma replay_written:
  assumes "\<forall>ev \<in> set post. \<not> lands wd (resolve wd [q]) ev"
  shows "replay wd (pre @ Settled j (WriteFile q c') None # post) fsys (resolve wd [q]) = Some (File c')"
  using assms by (simp add: replay_append replay_elsewhere)

lemma settle_first_failure:
  assumes "rejection st = first_failure (trace st)"
  shows "rejection (settle wd True c st) = first_failure (trace (settle wd True c st))"
  using assms
  by (simp add: rejection_settle_awaited trace_settle first_failure_append
      split: option.splits list.splits sum.splits)

lemma drain_first_failure:
  "rejection st = first_failure (trace st) \<Longrightarrow>
   rejection (drain n wd True schedule i st) = first_failure (trace (drain n wd True schedule i st))"
  by (rule drain_invariant [where I = "\<lambda>s. rejection s = first_failure (trace s)"])
     (simp_all add: settle_first_failure)

lemma drain_first_failure_kept:
  "first_failure (trace st) = Some x \<Longrightarrow> first_failure (trace (drain n wd aw schedule i st)) = Some x"
  by (rule drain_invariant [where I = "\<lambda>s. first_failure (trace s) = Some x"])
     (simp_all add: trace_settle first_failure_append)

lemma drain_unhandled: "unhandled st = [] \<Longrightarrow> unhandled (drain n wd True schedule i st) = []"
  by (rule drain_invariant [where I = "\<lambda>s. unhandled s = []"]) (simp_all add: unhandled_settle_awaited)

lemma drain_keeps_files: "is_file (files st) p \<Longrightarrow> is_file (files (drain n wd aw schedule i st)) p"
  by (rule drain_invariant [where I = "\<lambda>s. is_file (files s) p"]) (simp_all add: files_settle perform_keeps_files)

lemma settle_written:
  assumes "\<forall>j q c'. Settled j (WriteFile q c') None \<in> set (trace st) \<longrightarrow> is_file (files st) (resolve wd [q])"
  shows "\<forall>j q c'. Settled j (WriteFile q c') None \<in> set (trace (settle wd aw c st))
           \<longrightarrow> is_file (files (settle wd aw c st)) (resolve wd [q])"
proof (intro allI impI)
  fix j q c'
  assume a: "Settled j (WriteFile q c') None \<in> set (trace (settle wd aw c st))"
  show "is_file (files (settle wd aw c st)) (resolve wd [q])"
  proof (cases "Settled j (WriteFile q c') None \<in> set (trace st)")
    case True
    with assms have "is_file (files st) (resolve wd [q])" by blast
    then show ?thesis by (simp add: files_settle perform_keeps_files)
  next
    case False
    with a have "Settled j (WriteFile q c') None
        = Settled (tid (picked c st)) (request (picked c st)) (answer wd c st)"
      by (cases "answer wd c st"; cases "continuation (picked c st)"; cases "hd (continuation (picked c st))")
         (auto simp: trace_settle)
    then have "request (picked c st) = WriteFile q c' \<and> answer wd c st = None"
      by simp
    then show ?thesis
      using perform_written [of wd q c' "snd c" "files st"]
      by (auto simp: files_settle answer_def)
  qed
qed

lemma drain_written:
  assumes "\<forall>j q c'. Settled j (WriteFile q c') None \<in> set (trace st) \<longrightarrow> is_file (files st) (resolve wd [q])"
  shows "\<forall>j q c'. Settled j (WriteFile q c') None \<in> set (trace (drain n wd aw schedule i st))
           \<longrightarrow> is_file (files (drain n wd aw schedule i st)) (resolve wd [q])"
  by (rule drain_invariant [where I = "\<lambda>s. \<forall>j q c'. Settled j (WriteFile q c') None \<in> set (trace s) \<longrightarrow> is_file (files s) (resolve wd [q])"])
     (use assms settle_written in blast)+

section \<open>Where a request comes from\<close>

lemma settle_cases:
  obtains
    (failed) x where
      "answer wd c st = Some x"
      "trace (settle wd aw c st) = trace st @ [Settled (tid (picked c st)) (request (picked c st)) (Some x)]"
      "pool (settle wd aw c st)
         = take (fst c mod length (pool st)) (pool st) @ drop (Suc (fst c mod length (pool st))) (pool st)"
  | (finished)
      "answer wd c st = None" "continuation (picked c st) = []"
      "trace (settle wd aw c st) = trace st @ [Settled (tid (picked c st)) (request (picked c st)) None]"
      "pool (settle wd aw c st)
         = take (fst c mod length (pool st)) (pool st) @ drop (Suc (fst c mod length (pool st))) (pool st)"
  | (threw) x rest where
      "answer wd c st = None" "continuation (picked c st) = Inl x # rest"
      "trace (settle wd aw c st)
         = trace st @ [Settled (tid (picked c st)) (request (picked c st)) None, Threw (tid (picked c st)) x]"
      "pool (settle wd aw c st)
         = take (fst c mod length (pool st)) (pool st) @ drop (Suc (fst c mod length (pool st))) (pool st)"
  | (issued) ope rest where
      "answer wd c st = None" "continuation (picked c st) = Inr ope # rest"
      "trace (settle wd aw c st)
         = trace st @ [Settled (tid (picked c st)) (request (picked c st)) None, Issued (tid (picked c st)) ope]"
      "pool (settle wd aw c st)
         = (pool st)[fst c mod length (pool st) := (picked c st)\<lparr>request := ope, continuation := rest\<rparr>]"
proof (cases "answer wd c st")
  case (Some x)
  then show ?thesis by (intro failed [of x]) (simp_all add: trace_settle pool_settle Let_def)
next
  case None
  show ?thesis
  proof (cases "continuation (picked c st)")
    case Nil
    with None show ?thesis by (intro finished) (simp_all add: trace_settle pool_settle Let_def)
  next
    case (Cons s rest)
    show ?thesis
    proof (cases s)
      case (Inl x)
      with None Cons show ?thesis
        by (intro threw [of x rest]) (simp_all add: trace_settle pool_settle Let_def)
    next
      case (Inr ope)
      with None Cons show ?thesis
        by (intro issued [of ope rest]) (simp_all add: trace_settle pool_settle Let_def)
    qed
  qed
qed

lemma others_subset: "set (take k ts @ drop (Suc k) ts) \<subseteq> set ts"
  by (auto dest: in_set_takeD in_set_dropD)

lemma updated_cases: "t' \<in> set (ts[k := t]) \<Longrightarrow> t' = t \<or> t' \<in> set ts"
  by (auto dest: set_update_subset_insert [THEN subsetD])

lemma reachable_settle:
  assumes "pool st \<noteq> []"
  shows "reachable_requests (settle wd aw c st) \<subseteq> reachable_requests st"
proof -
  have t: "picked c st \<in> set (pool st)" using assms by (rule picked_in_pool)
  show ?thesis
  proof (cases rule: settle_cases [of wd c st aw])
    case (failed x)
    then show ?thesis using others_subset [of "fst c mod length (pool st)" "pool st"]
      by (auto simp: reachable_requests_def)
  next
    case finished
    then show ?thesis using others_subset [of "fst c mod length (pool st)" "pool st"]
      by (auto simp: reachable_requests_def)
  next
    case (threw x rest)
    then show ?thesis using others_subset [of "fst c mod length (pool st)" "pool st"]
      by (auto simp: reachable_requests_def)
  next
    case (issued ope rest)
    show ?thesis
    proof
      fix r
      assume "r \<in> reachable_requests (settle wd aw c st)"
      then consider
          (old) "r \<in> reachable_requests st"
        | (new) "r = (tid (picked c st), ope)"
        | (pending) t' ope' where "t' \<in> set (pool (settle wd aw c st))" "r = (tid t', ope')"
            "Inr ope' \<in> set (continuation t')"
        by (auto simp: reachable_requests_def issued(3))
      then show "r \<in> reachable_requests st"
      proof cases
        case old
        then show ?thesis .
      next
        case new
        with t issued(2) show ?thesis by (auto simp: reachable_requests_def)
      next
        case pending
        from pending(1) issued(4)
        have "t' = (picked c st)\<lparr>request := ope, continuation := rest\<rparr> \<or> t' \<in> set (pool st)"
          by (auto dest: updated_cases)
        then show ?thesis
        proof
          assume "t' = (picked c st)\<lparr>request := ope, continuation := rest\<rparr>"
          with pending issued(2) have "r = (tid (picked c st), ope') \<and> Inr ope' \<in> set (continuation (picked c st))"
            by simp
          with t show ?thesis by (auto simp: reachable_requests_def)
        next
          assume "t' \<in> set (pool st)"
          with pending show ?thesis by (auto simp: reachable_requests_def)
        qed
      qed
    qed
  qed
qed

lemma reachable_drain:
  "reachable_requests (drain n wd aw schedule i st) \<subseteq> reachable_requests st"
  by (rule drain_invariant [where I = "\<lambda>s. reachable_requests s \<subseteq> reachable_requests st"])
     (use reachable_settle in blast)+

lemma issued_settle:
  assumes p: "\<forall>t \<in> set (pool st). Issued (tid t) (request t) \<in> set (trace st)"
      and s: "\<forall>j ope r. Settled j ope r \<in> set (trace st) \<longrightarrow> Issued j ope \<in> set (trace st)"
      and ne: "pool st \<noteq> []"
  shows "(\<forall>t \<in> set (pool (settle wd aw c st)). Issued (tid t) (request t) \<in> set (trace (settle wd aw c st)))
       \<and> (\<forall>j ope r. Settled j ope r \<in> set (trace (settle wd aw c st)) \<longrightarrow>
             Issued j ope \<in> set (trace (settle wd aw c st)))"
proof -
  have t: "picked c st \<in> set (pool st)" using ne by (rule picked_in_pool)
  with p have i: "Issued (tid (picked c st)) (request (picked c st)) \<in> set (trace st)" by blast
  show ?thesis
  proof (cases rule: settle_cases [of wd c st aw])
    case (failed x)
    then show ?thesis using p s i others_subset [of "fst c mod length (pool st)" "pool st"]
      by auto
  next
    case finished
    then show ?thesis using p s i others_subset [of "fst c mod length (pool st)" "pool st"]
      by auto
  next
    case (threw x rest)
    then show ?thesis using p s i others_subset [of "fst c mod length (pool st)" "pool st"]
      by auto
  next
    case (issued ope rest)
    have u: "t' = (picked c st)\<lparr>request := ope, continuation := rest\<rparr> \<or> t' \<in> set (pool st)"
      if "t' \<in> set (pool (settle wd aw c st))" for t'
      using that issued(4) updated_cases by metis
    have "Issued (tid t') (request t') \<in> set (trace (settle wd aw c st))"
      if "t' \<in> set (pool (settle wd aw c st))" for t'
      using u [OF that] p by (auto simp: issued(3))
    moreover have "Issued j ope' \<in> set (trace (settle wd aw c st))"
      if "Settled j ope' r \<in> set (trace (settle wd aw c st))" for j ope' r
      using that s i by (auto simp: issued(3))
    ultimately show ?thesis by blast
  qed
qed

lemma issued_drain:
  assumes "\<forall>t \<in> set (pool st). Issued (tid t) (request t) \<in> set (trace st)"
      and "\<forall>j ope r. Settled j ope r \<in> set (trace st) \<longrightarrow> Issued j ope \<in> set (trace st)"
  shows "\<forall>j ope r. Settled j ope r \<in> set (trace (drain n wd aw schedule i st)) \<longrightarrow>
             Issued j ope \<in> set (trace (drain n wd aw schedule i st))"
proof -
  have "(\<forall>t \<in> set (pool (drain n wd aw schedule i st)).
            Issued (tid t) (request t) \<in> set (trace (drain n wd aw schedule i st)))
       \<and> (\<forall>j ope r. Settled j ope r \<in> set (trace (drain n wd aw schedule i st)) \<longrightarrow>
             Issued j ope \<in> set (trace (drain n wd aw schedule i st)))"
    by (rule drain_invariant
          [where I = "\<lambda>s. (\<forall>t \<in> set (pool s). Issued (tid t) (request t) \<in> set (trace s))
                        \<and> (\<forall>j ope r. Settled j ope r \<in> set (trace s) \<longrightarrow> Issued j ope \<in> set (trace s))"])
       (use assms issued_settle in blast)+
  then show ?thesis by blast
qed

section \<open>Order of events\<close>

lemma follows_seen: "ev \<in> set xs \<Longrightarrow> follows ev Q xs \<Longrightarrow> follows ev Q (xs @ ys)"
  by (induction xs) auto

lemma follows_unseen: "\<forall>x \<in> set xs. \<not> Q x \<Longrightarrow> follows ev Q ys \<Longrightarrow> follows ev Q (xs @ ys)"
  by (induction xs) auto

lemma follows_none: "\<forall>x \<in> set xs. \<not> Q x \<Longrightarrow> follows ev Q xs"
  by (induction xs) auto

lemma follows_cases: "follows ev Q xs \<Longrightarrow> ev \<in> set xs \<or> (\<forall>x \<in> set xs. \<not> Q x)"
  by (induction xs) auto

lemma follows_split:
  "follows ev Q xs \<Longrightarrow> xs = pre @ x # post \<Longrightarrow> Q x \<Longrightarrow> ev \<in> set pre \<or> x = ev"
proof (induction xs arbitrary: pre)
  case Nil
  then show ?case by simp
next
  case (Cons y ys)
  show ?case
  proof (cases pre)
    case Nil
    with Cons.prems show ?thesis by auto
  next
    case (Cons p pre')
    with Cons.prems Cons.IH [of pre'] show ?thesis by auto
  qed
qed

lemma settle_order:
  assumes "pool st \<noteq> []"
    and inv: "\<forall>t \<in> set (pool st). tid t = i \<longrightarrow>
            continuation t = [] \<or> (request t = first \<and> length (continuation t) = 1)"
    and fol: "follows (Settled i first None) (later_request i first) (trace st)"
  shows "(\<forall>t \<in> set (pool (settle wd aw c st)). tid t = i \<longrightarrow>
            continuation t = [] \<or> (request t = first \<and> length (continuation t) = 1))
       \<and> follows (Settled i first None) (later_request i first) (trace (settle wd aw c st))"
proof -
  have t: "picked c st \<in> set (pool st)" using assms(1) by (rule picked_in_pool)
  note sub = others_subset [of "fst c mod length (pool st)" "pool st"]
  have ext: "follows (Settled i first None) (later_request i first) (trace st @ evs)"
    if "follows (Settled i first None) (later_request i first) evs" for evs
    using follows_cases [OF fol] follows_seen [OF _ fol] follows_unseen [OF _ that] by blast
  show ?thesis
  proof (cases rule: settle_cases [of wd c st aw])
    case (failed x)
    then show ?thesis using inv sub ext [of "[Settled (tid (picked c st)) (request (picked c st)) (Some x)]"]
      by (auto simp: later_request_def)
  next
    case finished
    then show ?thesis using inv sub ext [of "[Settled (tid (picked c st)) (request (picked c st)) None]"]
      by (auto simp: later_request_def)
  next
    case (threw x rest)
    then show ?thesis using inv sub
        ext [of "[Settled (tid (picked c st)) (request (picked c st)) None, Threw (tid (picked c st)) x]"]
      by (auto simp: later_request_def)
  next
    case (issued ope rest)
    have new: "follows (Settled i first None) (later_request i first)
        [Settled (tid (picked c st)) (request (picked c st)) None, Issued (tid (picked c st)) ope]"
      using inv t issued(2) by (auto simp: later_request_def)
    have "\<forall>t' \<in> set (pool (settle wd aw c st)). tid t' = i \<longrightarrow>
            continuation t' = [] \<or> (request t' = first \<and> length (continuation t') = 1)"
    proof (intro ballI impI)
      fix t'
      assume a: "t' \<in> set (pool (settle wd aw c st))" "tid t' = i"
      then have "t' = (picked c st)\<lparr>request := ope, continuation := rest\<rparr> \<or> t' \<in> set (pool st)"
        by (auto simp: issued(4) dest: updated_cases)
      then show "continuation t' = [] \<or> (request t' = first \<and> length (continuation t') = 1)"
      proof
        assume u: "t' = (picked c st)\<lparr>request := ope, continuation := rest\<rparr>"
        with a(2) have "tid (picked c st) = i" by simp
        with inv t issued(2) have "rest = []" by auto
        with u show ?thesis by simp
      next
        assume "t' \<in> set (pool st)"
        with inv a(2) show ?thesis by blast
      qed
    qed
    then show ?thesis using ext [OF new] issued(3) by simp
  qed
qed

lemma drain_order:
  assumes "\<forall>t \<in> set (pool st). tid t = i \<longrightarrow>
            continuation t = [] \<or> (request t = first \<and> length (continuation t) = 1)"
    and "follows (Settled i first None) (later_request i first) (trace st)"
  shows "follows (Settled i first None) (later_request i first) (trace (drain n wd aw schedule k st))"
proof -
  have "(\<forall>t \<in> set (pool (drain n wd aw schedule k st)). tid t = i \<longrightarrow>
            continuation t = [] \<or> (request t = first \<and> length (continuation t) = 1))
       \<and> follows (Settled i first None) (later_request i first) (trace (drain n wd aw schedule k st))"
    by (rule drain_invariant [where I = "\<lambda>s. (\<forall>t \<in> set (pool s). tid t = i \<longrightarrow>
            continuation t = [] \<or> (request t = first \<and> length (continuation t) = 1))
       \<and> follows (Settled i first None) (later_request i first) (trace s)"])
       (use assms settle_order in blast)+
  then show ?thesis by simp
qed

section \<open>The array of promises\<close>

lemma issue_tasks: "t \<in> set (fst (issue els)) \<Longrightarrow> \<exists>ts. Inr ts \<in> set els \<and> t \<in> set ts"
  by (induction els rule: issue.induct) (auto split: prod.splits)

lemma elements_tasks:
  assumes "Inr ts \<in> set (elements e d folder name)" and "t \<in> set ts"
  shows "(t = \<lparr> tid = NpmIgnore, request = WriteFile (join [dir e folder name, ''.npmignore'']) npmignore,
                 continuation = [] \<rparr>)
       \<or> (t = \<lparr> tid = License, request = WriteFile (join [dir e folder name, ''LICENSE'']) (LICENSE d),
                 continuation = [] \<rparr>)
       \<or> (\<exists>w. initIndex e d folder name = Inr w \<and> t = \<lparr> tid = IndexTs, request = w, continuation = [] \<rparr>)
       \<or> (t = \<lparr> tid = Tests, request = Mkdir (tests e folder name),
                 continuation = [initTests e d folder name] \<rparr>)
       \<or> (t = \<lparr> tid = Src, request = Mkdir (src e folder name),
                 continuation = [initSrc e d folder name] \<rparr>)
       \<or> (t = \<lparr> tid = TsConfig, request = WriteFile (join [dir e folder name, ''tsconfig.json'']) tsConfigStr,
                 continuation = [] \<rparr>)
       \<or> (\<exists>text. format e ''markdown'' (prettierConfig d) (readme name) = Inr text
             \<and> t = \<lparr> tid = Readme, request = WriteFile (join [dir e folder name, ''README.md'']) text,
                     continuation = [] \<rparr>)
       \<or> (t = \<lparr> tid = PackageJson, request = WriteFile (pkgPath e folder name) (pkgStr (manifest d)),
                 continuation = [] \<rparr>)
       \<or> (t = \<lparr> tid = Shrinkwrap,
                 request = WriteFile (join [dir e folder name, ''npm-shrinkwrap.json'']) (shrinkwrapStr name),
                 continuation = [] \<rparr>)"
  using assms
  by (auto simp: elements_def initRootFiles_def single_def bind_def split: sum.splits)

section \<open>The emission as a whole\<close>

lemma first_failure_issued [simp]: "first_failure (map (\<lambda>t. Issued (tid t) (request t)) ts) = None"
  by (induction ts) simp_all

lemma replay_issued [simp]: "replay wd (map (\<lambda>t. Issued (tid t) (request t)) ts) fsys = fsys"
  by (induction ts) simp_all

lemma fst_emit:
  "fst (emit e schedule d folder name files1)
     = drain (requests_left (fst (issue (elements e d folder name)))) (cwd e)
         (snd (issue (elements e d folder name)) = None) schedule 0 (start e d folder name files1)"
  by (simp add: emit_def Let_def)

lemma snd_emit:
  "snd (emit e schedule d folder name files1)
     = (case snd (issue (elements e d folder name)) of
          Some x \<Rightarrow> Some x
        | None \<Rightarrow> rejection (fst (emit e schedule d folder name files1)))"
  by (simp add: emit_def Let_def split: option.splits)

lemma files_start [simp]: "files (start e d folder name files1) = files1"
  by (simp add: start_def Let_def)

lemma pool_start [simp]: "pool (start e d folder name files1) = fst (issue (elements e d folder name))"
  by (simp add: start_def Let_def)

lemma rejection_start [simp]: "rejection (start e d folder name files1) = None"
  by (simp add: start_def Let_def)

lemma unhandled_start [simp]: "unhandled (start e d folder name files1) = []"
  by (simp add: start_def Let_def)

lemma trace_start:
  "trace (start e d folder name files1)
     = map (\<lambda>t. Issued (tid t) (request t)) (fst (issue (elements e d folder name)))
       @ (case snd (issue (elements e d folder name)) of None \<Rightarrow> [] | Some x \<Rightarrow> [ThrewSync x])"
  by (simp add: start_def Let_def)

lemma first_failure_start:
  "first_failure (trace (start e d folder name files1)) = snd (issue (elements e d folder name))"
  by (simp add: trace_start first_failure_append split: option.splits)

lemma replay_start: "replay wd (trace (start e d folder name files1)) fsys = fsys"
  by (simp add: trace_start replay_append split: option.splits)

lemma emit_first_failure:
  "snd (emit e schedule d folder name files1)
     = first_failure (trace (fst (emit e schedule d folder name files1)))"
proof (cases "snd (issue (elements e d folder name))")
  case None
  then have "rejection (start e d folder name files1) = first_failure (trace (start e d folder name files1))"
    by (simp add: first_failure_start)
  from drain_first_failure [OF this] None show ?thesis
    by (simp add: snd_emit fst_emit)
next
  case (Some x)
  then have "first_failure (trace (start e d folder name files1)) = Some x"
    by (simp add: first_failure_start)
  from drain_first_failure_kept [OF this] Some show ?thesis
    by (simp add: snd_emit fst_emit)
qed

lemma emit_replay:
  "files (fst (emit e schedule d folder name files1))
     = replay (cwd e) (trace (fst (emit e schedule d folder name files1))) files1"
proof -
  have "files (start e d folder name files1) = replay (cwd e) (trace (start e d folder name files1)) files1"
    by (simp add: replay_start)
  from drain_replay [OF this] show ?thesis by (simp add: fst_emit)
qed

lemma emit_keeps_files:
  "is_file files1 p \<Longrightarrow> is_file (files (fst (emit e schedule d folder name files1))) p"
  by (simp add: fst_emit drain_keeps_files)

lemma emit_written:
  assumes "Settled j (WriteFile q c') None \<in> set (trace (fst (emit e schedule d folder name files1)))"
  shows "is_file (files (fst (emit e schedule d folder name files1))) (resolve (cwd e) [q])"
proof -
  have "\<forall>j q c'. Settled j (WriteFile q c') None \<in> set (trace (start e d folder name files1))
          \<longrightarrow> is_file (files (start e d folder name files1)) (resolve (cwd e) [q])"
    by (auto simp: trace_start split: option.splits)
  from drain_written [OF this] assms show ?thesis
    unfolding fst_emit by blast
qed

lemma emit_unhandled:
  "snd (issue (elements e d folder name)) = None \<Longrightarrow>
   unhandled (fst (emit e schedule d folder name files1)) = []"
  by (simp add: fst_emit drain_unhandled)

lemma emit_drained: "pool (fst (emit e schedule d folder name files1)) = []"
  by (simp add: fst_emit drain_drains)

lemma emit_issued:
  assumes "Issued i ope \<in> set (trace (fst (emit e schedule d folder name files1)))"
  shows "\<exists>ts t. Inr ts \<in> set (elements e d folder name) \<and> t \<in> set ts \<and> tid t = i
           \<and> (ope = request t \<or> Inr ope \<in> set (continuation t))"
proof -
  from assms have "(i, ope) \<in> reachable_requests (fst (emit e schedule d folder name files1))"
    by (simp add: reachable_requests_def)
  then have "(i, ope) \<in> reachable_requests (start e d folder name files1)"
    unfolding fst_emit by (rule subsetD [OF reachable_drain])
  then obtain t where "t \<in> set (fst (issue (elements e d folder name)))" "tid t = i"
      "ope = request t \<or> Inr ope \<in> set (continuation t)"
    by (auto simp: reachable_requests_def trace_start split: option.splits)
  with issue_tasks [of t "elements e d folder name"] show ?thesis by blast
qed

lemma emit_settled:
  assumes "Settled j ope r \<in> set (trace (fst (emit e schedule d folder name files1)))"
  shows "Issued j ope \<in> set (trace (fst (emit e schedule d folder name files1)))"
proof -
  have "\<forall>t \<in> set (pool (start e d folder name files1)).
          Issued (tid t) (request t) \<in> set (trace (start e d folder name files1))"
    by (auto simp: trace_start)
  moreover have "\<forall>j ope r. Settled j ope r \<in> set (trace (start e d folder name files1)) \<longrightarrow>
          Issued j ope \<in> set (trace (start e d folder name files1))"
    by (auto simp: trace_start split: option.splits)
  ultimately show ?thesis
    using assms issued_drain unfolding fst_emit by blast
qed

lemma emit_order:
  assumes "\<forall>ts t. Inr ts \<in> set (elements e d folder name) \<and> t \<in> set ts \<and> tid t = i \<longrightarrow>
             request t = first \<and> length (continuation t) = 1"
  shows "follows (Settled i first None) (later_request i first)
           (trace (fst (emit e schedule d folder name files1)))"
proof -
  let ?tasks = "fst (issue (elements e d folder name))"
  have tasks: "\<forall>t \<in> set ?tasks. tid t = i \<longrightarrow> request t = first \<and> length (continuation t) = 1"
    using assms issue_tasks by blast
  then have 1: "\<forall>t \<in> set (pool (start e d folder name files1)). tid t = i \<longrightarrow>
            continuation t = [] \<or> (request t = first \<and> length (continuation t) = 1)"
    by simp
  have "\<forall>x \<in> set (trace (start e d folder name files1)). \<not> later_request i first x"
    using tasks by (auto simp: later_request_def trace_start split: option.splits)
  then have 2: "follows (Settled i first None) (later_request i first) (trace (start e d folder name files1))"
    by (rule follows_none)
  from drain_order [OF 1 2] show ?thesis
    by (simp add: fst_emit)
qed

lemma emit_order_tests:
  "follows (Settled Tests (Mkdir (tests e folder name)) None)
     (later_request Tests (Mkdir (tests e folder name)))
     (trace (fst (emit e schedule d folder name files1)))"
  by (rule emit_order) (auto dest!: elements_tasks)

lemma emit_order_src:
  "follows (Settled Src (Mkdir (src e folder name)) None)
     (later_request Src (Mkdir (src e folder name)))
     (trace (fst (emit e schedule d folder name files1)))"
  by (rule emit_order) (auto dest!: elements_tasks)

section \<open>The ways a run goes\<close>

lemma create_cases:
  obtains
    (invalid)
      "\<not> validForNewPackages (npmValiddate (builtins e) name)"
      "create e schedule name folder files0 =
         \<lparr> console = [], disk = files0, events = [],
           ending = Rejected (Error (invalid_name_message name (npmValiddate (builtins e) name))),
           unhandledRejections = [] \<rparr>"
  | (unprepared) x where
      "validForNewPackages (npmValiddate (builtins e) name)"
      "prepare e files0 name folder = Inl x"
      "create e schedule name folder files0 =
         \<lparr> console = caught e name x, disk = files0, events = [], ending = Returned,
           unhandledRejections = [] \<rparr>"
  | (collided) d x where
      "validForNewPackages (npmValiddate (builtins e) name)"
      "prepare e files0 name folder = Inr d"
      "mkdirSync (cwd e) (mkdirSyncFault e) files0 (dir e folder name) = Inl x"
      "create e schedule name folder files0 =
         \<lparr> console = about e folder name @ caught e name x, disk = files0, events = [],
           ending = Returned, unhandledRejections = [] \<rparr>"
  | (emitted) d files1 where
      "validForNewPackages (npmValiddate (builtins e) name)"
      "prepare e files0 name folder = Inr d"
      "mkdirSync (cwd e) (mkdirSyncFault e) files0 (dir e folder name) = Inr files1"
      "create e schedule name folder files0 =
         \<lparr> console = about e folder name
             @ (case snd (emit e schedule d folder name files1) of
                  Some x \<Rightarrow> caught e name x
                | None \<Rightarrow> succeeded e d folder name),
           disk = files (fst (emit e schedule d folder name files1)),
           events = trace (fst (emit e schedule d folder name files1)),
           ending = Returned,
           unhandledRejections = unhandled (fst (emit e schedule d folder name files1)) \<rparr>"
proof (cases "validForNewPackages (npmValiddate (builtins e) name)")
  case False
  then show ?thesis by (intro invalid) (simp_all add: create_def Let_def)
next
  case valid: True
  show ?thesis
  proof (cases "prepare e files0 name folder")
    case (Inl x)
    with valid show ?thesis by (intro unprepared [of x]) (simp_all add: create_def Let_def)
  next
    case (Inr d)
    show ?thesis
    proof (cases "mkdirSync (cwd e) (mkdirSyncFault e) files0 (dir e folder name)")
      case (Inl x)
      with valid Inr show ?thesis by (intro collided [of d x]) (simp_all add: create_def Let_def)
    next
      case made: (Inr files1)
      with valid Inr show ?thesis
        by (intro emitted [of d files1])
           (auto simp: create_def Let_def split: prod.splits option.splits)
    qed
  qed
qed

section \<open>The target directory exists; a write fails\<close>

lemma main_Parsed:
  "main e schedule (Parsed name folder) files0 =
     (create e schedule name folder files0)
       \<lparr>console := Write COLORS_Reset # console (create e schedule name folder files0)\<rparr>"
  by (simp add: main_def Let_def)

lemma disk_main [simp]:
  "disk (main e schedule (Parsed name folder) files0) = disk (create e schedule name folder files0)"
  by (simp add: main_Parsed)

lemma events_main [simp]:
  "events (main e schedule (Parsed name folder) files0) = events (create e schedule name folder files0)"
  by (simp add: main_Parsed)

lemma ending_main [simp]:
  "ending (main e schedule (Parsed name folder) files0) = ending (create e schedule name folder files0)"
  by (simp add: main_Parsed)

lemma unhandled_main [simp]:
  "unhandledRejections (main e schedule (Parsed name folder) files0)
     = unhandledRejections (create e schedule name folder files0)"
  by (simp add: main_Parsed)

lemma console_main [simp]:
  "console (main e schedule (Parsed name folder) files0)
     = Write COLORS_Reset # console (create e schedule name folder files0)"
  by (simp add: main_Parsed)

lemma mkdirSync_existing:
  "files0 (resolve wd [p]) \<noteq> None \<Longrightarrow>
   \<exists>x. mkdirSync wd fault files0 p = Inl x \<and> (fault = None \<longrightarrow> x = SystemError ''EEXIST'' p)"
  by (cases fault) (auto simp: mkdirSync_def lookup_def)

lemma mkdirSync_keeps_files: "mkdirSync wd fault files0 p = Inr files1 \<Longrightarrow> is_file files0 q \<Longrightarrow> is_file files1 q"
  by (cases fault)
     (auto simp: mkdirSync_def is_file_def lookup_def split: if_splits option.splits node.splits)

text \<open>
  Claim C2: when the target directory exists before the run, in whatever way the run
  goes on, no request is issued and the files are left exactly as they were; the run ends
  with the name rejected or with the output of the \<^verbatim>\<open>catch\<close> block. When the name is valid,
  the documents can be built and no other fault occurs, the error caught is the
  \<^verbatim>\<open>EEXIST\<close> of \<^verbatim>\<open>mkdirSync\<close>.
\<close>

theorem C2_existing_directory:
  assumes "files0 (resolve (cwd e) [dir e folder name]) \<noteq> None"
  shows "disk (main e schedule (Parsed name folder) files0) = files0
       \<and> events (main e schedule (Parsed name folder) files0) = []
       \<and> ((\<exists>x. ending (main e schedule (Parsed name folder) files0) = Rejected x)
          \<or> (\<exists>pre x. console (main e schedule (Parsed name folder) files0) = pre @ caught e name x))
       \<and> (validForNewPackages (npmValiddate (builtins e) name)
            \<and> (\<exists>d. prepare e files0 name folder = Inr d) \<and> mkdirSyncFault e = None \<longrightarrow>
          console (main e schedule (Parsed name folder) files0)
            = Write COLORS_Reset # about e folder name
              @ caught e name (SystemError ''EEXIST'' (dir e folder name)))"
proof -
  have "\<exists>x. mkdirSync (cwd e) (mkdirSyncFault e) files0 (dir e folder name) = Inl x
          \<and> (mkdirSyncFault e = None \<longrightarrow> x = SystemError ''EEXIST'' (dir e folder name))"
    using assms by (rule mkdirSync_existing)
  then obtain y where y: "mkdirSync (cwd e) (mkdirSyncFault e) files0 (dir e folder name) = Inl y"
    "mkdirSyncFault e = None \<longrightarrow> y = SystemError ''EEXIST'' (dir e folder name)"
    by auto
  show ?thesis
  proof (cases rule: create_cases [of e name schedule folder files0])
    case invalid
    then show ?thesis by simp
  next
    case (unprepared x)
    then have "console (main e schedule (Parsed name folder) files0) = [Write COLORS_Reset] @ caught e name x"
      by simp
    then have "\<exists>pre x. console (main e schedule (Parsed name folder) files0) = pre @ caught e name x"
      by blast
    with unprepared show ?thesis by simp
  next
    case (collided d x)
    with y have "console (main e schedule (Parsed name folder) files0)
        = (Write COLORS_Reset # about e folder name) @ caught e name y"
      by simp
    then have "\<exists>pre x. console (main e schedule (Parsed name folder) files0) = pre @ caught e name x"
      by blast
    with collided y show ?thesis by auto
  next
    case (emitted d files1)
    with y show ?thesis by simp
  qed
qed

lemma first_failure_member:
  "ev \<in> set tr \<Longrightarrow> failure ev = Some x \<Longrightarrow> \<exists>x0. first_failure tr = Some x0"
  by (induction tr) (auto split: option.splits)

text \<open>
  Claim C3: when a write of the emission fails, the run prints the error of the first
  failure of the emission (that of the failed write, when nothing failed before it), an
  empty line, and the line that says the package was not created, and returns. Nothing
  is rolled back: the files are those the successful requests leave, every file that was
  there is still a file, so is every file a write has completed, and such a file holds
  what was written as long as no later request succeeds on its path.
\<close>

theorem C3_failed_write:
  assumes "Settled i (WriteFile p c) (Some x) \<in> set (events (main e schedule (Parsed name folder) files0))"
  shows "\<exists>x0 files1.
           first_failure (events (main e schedule (Parsed name folder) files0)) = Some x0
         \<and> (\<forall>pre post. events (main e schedule (Parsed name folder) files0)
                            = pre @ Settled i (WriteFile p c) (Some x) # post
                        \<and> first_failure pre = None \<longrightarrow> x0 = x)
         \<and> console (main e schedule (Parsed name folder) files0)
             = Write COLORS_Reset # about e folder name
               @ [ErrorObject x0, Log [],
                  Log (chalk e ''red'' ''fail'' @ '' '' @ chalk e ''magenta'' ''create''
                       @ '' New package '' @ chalk e ''bgBlack'' ('' '' @ name @ '' '')
                       @ '' not created. See error above.'')]
         \<and> ending (main e schedule (Parsed name folder) files0) = Returned
         \<and> mkdirSync (cwd e) (mkdirSyncFault e) files0 (dir e folder name) = Inr files1
         \<and> disk (main e schedule (Parsed name folder) files0)
             = replay (cwd e) (events (main e schedule (Parsed name folder) files0)) files1
         \<and> (\<forall>q. is_file files0 q \<longrightarrow> is_file (disk (main e schedule (Parsed name folder) files0)) q)
         \<and> (\<forall>j q c'. Settled j (WriteFile q c') None
                         \<in> set (events (main e schedule (Parsed name folder) files0)) \<longrightarrow>
               is_file (disk (main e schedule (Parsed name folder) files0)) (resolve (cwd e) [q]))
         \<and> (\<forall>pre j q c' post.
               events (main e schedule (Parsed name folder) files0)
                 = pre @ Settled j (WriteFile q c') None # post
               \<and> (\<forall>ev \<in> set post. \<not> lands (cwd e) (resolve (cwd e) [q]) ev) \<longrightarrow>
               disk (main e schedule (Parsed name folder) files0) (resolve (cwd e) [q]) = Some (File c'))"
proof (cases rule: create_cases [of e name schedule folder files0])
  case invalid
  with assms show ?thesis by simp
next
  case (unprepared y)
  with assms show ?thesis by simp
next
  case (collided d y)
  with assms show ?thesis by simp
next
  case (emitted d files1)
  let ?st = "fst (emit e schedule d folder name files1)"
  have ev: "events (main e schedule (Parsed name folder) files0) = trace ?st"
    using emitted by simp
  with assms have "Settled i (WriteFile p c) (Some x) \<in> set (trace ?st)" by simp
  then obtain x0 where x0: "first_failure (trace ?st) = Some x0"
    using first_failure_member [of "Settled i (WriteFile p c) (Some x)" "trace ?st" x] by auto
  then have s: "snd (emit e schedule d folder name files1) = Some x0"
    by (simp add: emit_first_failure)
  have first: "\<forall>pre post. trace ?st = pre @ Settled i (WriteFile p c) (Some x) # post
                        \<and> first_failure pre = None \<longrightarrow> x0 = x"
    using x0 by (auto simp: first_failure_append)
  have con: "console (main e schedule (Parsed name folder) files0)
             = Write COLORS_Reset # about e folder name
               @ [ErrorObject x0, Log [],
                  Log (chalk e ''red'' ''fail'' @ '' '' @ chalk e ''magenta'' ''create''
                       @ '' New package '' @ chalk e ''bgBlack'' ('' '' @ name @ '' '')
                       @ '' not created. See error above.'')]"
    using emitted s by (simp add: caught_def fail_message_def)
  have dsk: "disk (main e schedule (Parsed name folder) files0) = files ?st"
    using emitted by simp
  have rep: "files ?st = replay (cwd e) (trace ?st) files1"
    by (rule emit_replay)
  have keep: "\<forall>q. is_file files0 q \<longrightarrow> is_file (files ?st) q"
    using mkdirSync_keeps_files [OF emitted(3)] emit_keeps_files by blast
  have wr: "\<forall>j q c'. Settled j (WriteFile q c') None \<in> set (trace ?st) \<longrightarrow>
               is_file (files ?st) (resolve (cwd e) [q])"
    using emit_written by blast
  have content: "\<forall>pre j q c' post.
               trace ?st = pre @ Settled j (WriteFile q c') None # post
               \<and> (\<forall>ev \<in> set post. \<not> lands (cwd e) (resolve (cwd e) [q]) ev) \<longrightarrow>
               files ?st (resolve (cwd e) [q]) = Some (File c')"
  proof (intro allI impI, elim conjE)
    fix pre j q c' post
    assume t: "trace ?st = pre @ Settled j (WriteFile q c') None # post"
      and l: "\<forall>ev \<in> set post. \<not> lands (cwd e) (resolve (cwd e) [q]) ev"
    have "files ?st (resolve (cwd e) [q])
        = replay (cwd e) (pre @ Settled j (WriteFile q c') None # post) files1 (resolve (cwd e) [q])"
      using rep t by simp
    also have "\<dots> = Some (File c')"
      using l by (rule replay_written)
    finally show "files ?st (resolve (cwd e) [q]) = Some (File c')" .
  qed
  have en: "ending (main e schedule (Parsed name folder) files0) = Returned"
    using emitted by simp
  show ?thesis
    unfolding ev dsk
    using x0 first con en emitted(3) rep keep wr content by blast
qed

section \<open>What is written, and in which order\<close>

lemma create_events:
  assumes "ev \<in> set (events (main e schedule (Parsed name folder) files0))"
  obtains d files1 where
    "validForNewPackages (npmValiddate (builtins e) name)"
    "prepare e files0 name folder = Inr d"
    "mkdirSync (cwd e) (mkdirSyncFault e) files0 (dir e folder name) = Inr files1"
    "events (main e schedule (Parsed name folder) files0) = trace (fst (emit e schedule d folder name files1))"
proof (cases rule: create_cases [of e name schedule folder files0])
  case invalid
  with assms show ?thesis by simp
next
  case (unprepared y)
  with assms show ?thesis by simp
next
  case (collided d y)
  with assms show ?thesis by simp
next
  case (emitted d files1)
  then show ?thesis by (intro that [of d files1]) simp_all
qed

lemma emit_issued_write:
  assumes "Issued i (WriteFile p c) \<in> set (trace (fst (emit e schedule d folder name files1)))"
  shows "(i = NpmIgnore \<and> p = join [dir e folder name, ''.npmignore''] \<and> c = npmignore)
       \<or> (i = License \<and> p = join [dir e folder name, ''LICENSE''] \<and> c = LICENSE d)
       \<or> (i = IndexTs \<and> initIndex e d folder name = Inr (WriteFile p c))
       \<or> (i = Tests \<and> initTests e d folder name = Inr (WriteFile p c))
       \<or> (i = Src \<and> initSrc e d folder name = Inr (WriteFile p c))
       \<or> (i = TsConfig \<and> p = join [dir e folder name, ''tsconfig.json''] \<and> c = tsConfigStr)
       \<or> (i = Readme \<and> p = join [dir e folder name, ''README.md'']
            \<and> format e ''markdown'' (prettierConfig d) (readme name) = Inr c)
       \<or> (i = PackageJson \<and> p = pkgPath e folder name \<and> c = pkgStr (manifest d))
       \<or> (i = Shrinkwrap \<and> p = join [dir e folder name, ''npm-shrinkwrap.json'']
            \<and> c = shrinkwrapStr name)"
proof -
  from emit_issued [OF assms] obtain ts t where
    el: "Inr ts \<in> set (elements e d folder name)" "t \<in> set ts" and
    r: "tid t = i" "WriteFile p c = request t \<or> Inr (WriteFile p c) \<in> set (continuation t)"
    by blast
  from elements_tasks [OF el] show ?thesis
    by (elim disjE exE conjE) (use r in auto)
qed

lemma initIndex_Inr:
  "initIndex e d folder name = Inr (WriteFile p c) \<Longrightarrow>
   p = join [dir e folder name, ''index.ts'']
   \<and> (\<exists>header. headerdoc name (manifest d) = Inr header
         \<and> format e ''typescript'' (prettierConfig d) (header @ indexFile) = Inr c)"
  by (auto simp: initIndex_def bind_def split: sum.splits)

lemma initTests_Inr:
  "initTests e d folder name = Inr (WriteFile p c) \<Longrightarrow>
   p = join [tests e folder name, ''index.test.ts'']
   \<and> format e ''typescript'' (prettierConfig d) (testFile e name) = Inr c"
  by (auto simp: initTests_def bind_def split: sum.splits)

lemma initSrc_Inr:
  "initSrc e d folder name = Inr (WriteFile p c) \<Longrightarrow>
   p = join [src e folder name, ''index.ts'']
   \<and> format e ''typescript'' (prettierConfig d) indexFile = Inr c"
  by (auto simp: initSrc_def bind_def split: sum.splits)

text \<open>
  Claim C7, as the code has it: of the textual documents, the two source stubs and the
  test stub are written as the formatter returns them under the hint \<^verbatim>\<open>typescript\<close>, and the
  readme under the hint \<^verbatim>\<open>markdown\<close>; the ignore file is written as the literal it is, and
  the license as it was read from the workspace, neither passing through the formatter.
\<close>

theorem C7_formatted_and_verbatim_documents:
  assumes "prepare e files0 name folder = Inr d"
    and "Issued i (WriteFile p c) \<in> set (events (main e schedule (Parsed name folder) files0))"
  shows "(i = IndexTs \<longrightarrow> (\<exists>header. headerdoc name (manifest d) = Inr header
            \<and> format e ''typescript'' (prettierConfig d) (header @ indexFile) = Inr c))
       \<and> (i = Src \<longrightarrow> format e ''typescript'' (prettierConfig d) indexFile = Inr c)
       \<and> (i = Tests \<longrightarrow> format e ''typescript'' (prettierConfig d) (testFile e name) = Inr c)
       \<and> (i = Readme \<longrightarrow> format e ''markdown'' (prettierConfig d) (readme name) = Inr c)
       \<and> (i = NpmIgnore \<longrightarrow> c = npmignore)
       \<and> (i = License \<longrightarrow> c = LICENSE d
            \<and> readFile (cwd e) (readFault e) files0 (join [workspaceDir e, ''LICENSE'']) = Inr c)"
proof -
  from assms(2) obtain d' files1 where
    p: "prepare e files0 name folder = Inr d'" and
    ev: "events (main e schedule (Parsed name folder) files0) = trace (fst (emit e schedule d' folder name files1))"
    by (rule create_events)
  from p assms(1) have d: "d' = d" by simp
  from assms(1) have lic: "readFile (cwd e) (readFault e) files0 (join [workspaceDir e, ''LICENSE'']) = Inr (LICENSE d)"
    by (auto elim: prepare_Inr)
  from assms(2) ev d have "Issued i (WriteFile p c) \<in> set (trace (fst (emit e schedule d folder name files1)))"
    by simp
  from emit_issued_write [OF this] lic show ?thesis
    by (elim disjE conjE) (auto dest: initIndex_Inr initTests_Inr initSrc_Inr)
qed

text \<open>
  Claim C9: in every run, whatever the order in which the environment settles the requests
  and whatever faults it answers with, a write issued by the chain of \<^verbatim>\<open>tests\<close> comes after
  the \<^verbatim>\<open>mkdir\<close> of \<^verbatim>\<open>tests\<close> has settled with success and goes to \<^verbatim>\<open>tests/index.test.ts\<close>; the
  same holds for \<^verbatim>\<open>src\<close> and \<^verbatim>\<open>src/index.ts\<close>. Every other write goes to a file directly in
  the target directory, which \<^verbatim>\<open>mkdirSync\<close> has made before anything is issued.
\<close>

theorem C9_subdirectories_before_their_files:
  assumes "events (main e schedule (Parsed name folder) files0) = pre @ Issued i (WriteFile p c) # post"
  shows "(i = Tests \<longrightarrow> Settled Tests (Mkdir (tests e folder name)) None \<in> set pre
                        \<and> p = join [tests e folder name, ''index.test.ts''])
       \<and> (i = Src \<longrightarrow> Settled Src (Mkdir (src e folder name)) None \<in> set pre
                      \<and> p = join [src e folder name, ''index.ts''])
       \<and> (i \<noteq> Tests \<and> i \<noteq> Src \<longrightarrow>
            p \<in> set (map (\<lambda>f. join [dir e folder name, f])
                       [''.npmignore'', ''LICENSE'', ''index.ts'', ''tsconfig.json'', ''README.md'',
                        ''package.json'', ''npm-shrinkwrap.json'']))
       \<and> (\<exists>files1. mkdirSync (cwd e) (mkdirSyncFault e) files0 (dir e folder name) = Inr files1)"
proof -
  have mem: "Issued i (WriteFile p c) \<in> set (events (main e schedule (Parsed name folder) files0))"
    using assms by simp
  then obtain d files1 where
    mk: "mkdirSync (cwd e) (mkdirSyncFault e) files0 (dir e folder name) = Inr files1" and
    ev: "events (main e schedule (Parsed name folder) files0) = trace (fst (emit e schedule d folder name files1))"
    by (rule create_events)
  let ?tr = "trace (fst (emit e schedule d folder name files1))"
  have split: "?tr = pre @ Issued i (WriteFile p c) # post"
    using assms ev by simp
  from mem ev have "Issued i (WriteFile p c) \<in> set ?tr" by simp
  note w = emit_issued_write [OF this]
  have t: "Settled Tests (Mkdir (tests e folder name)) None \<in> set pre" if "i = Tests"
    using follows_split [OF emit_order_tests split] that by (simp add: later_request_def)
  have s: "Settled Src (Mkdir (src e folder name)) None \<in> set pre" if "i = Src"
    using follows_split [OF emit_order_src split] that by (simp add: later_request_def)
  from w t s mk show ?thesis
    by (elim disjE conjE) (auto dest: initIndex_Inr initTests_Inr initSrc_Inr simp: pkgPath_def)
qed

section \<open>The example run\<close>

lemma trace_drain_mono: "set (trace st) \<subseteq> set (trace (drain n wd aw schedule i st))"
  by (rule drain_invariant [where I = "\<lambda>s. set (trace st) \<subseteq> set (trace s)"])
     (auto simp: trace_settle)

lemma issue_elements:
  "fst (issue (elements e d folder name))
     = initRootFiles e d folder name @ fst (issue (tl (elements e d folder name)))"
  by (simp add: elements_def split: prod.splits)

lemma emit_start_events:
  "set (trace (start e d folder name files1)) \<subseteq> set (trace (fst (emit e schedule d folder name files1)))"
  unfolding fst_emit by (rule trace_drain_mono)

lemma emit_first_completion:
  "set (trace (settle (cwd e) (snd (issue (elements e d folder name)) = None) (schedule 0)
                 (start e d folder name files1)))
     \<subseteq> set (trace (fst (emit e schedule d folder name files1)))"
proof -
  have ne: "pool (start e d folder name files1) \<noteq> []"
    by (simp add: issue_elements initRootFiles_def)
  then have "requests_left (fst (issue (elements e d folder name))) \<noteq> 0"
    using requests_left_0 by auto
  then obtain n where n: "requests_left (fst (issue (elements e d folder name))) = Suc n"
    by (cases "requests_left (fst (issue (elements e d folder name)))") auto
  show ?thesis
    unfolding fst_emit n using ne by (simp add: trace_drain_mono)
qed

lemma example_valid: "validForNewPackages (npmValiddate (builtins example_env) ''widgets'')"
  by code_simp

lemma example_dir: "resolve (cwd example_env) [dir example_env None ''widgets''] = ''/repo/packages/widgets''"
  by code_simp

lemma example_tests:
  "resolve (cwd example_env) [tests example_env None ''widgets''] = ''/repo/packages/widgets/tests''"
  by code_simp

lemma example_prepared:
  "fsys ''/repo/LICENSE'' = Some (File ''MIT'') \<Longrightarrow>
   prepare example_env fsys ''widgets'' folder = Inr (example_documents folder)"
  by (simp add: prepare_def bind_def example_env_def readFile_def workspaceDir_def
      join_def normalize_def normalizeString_def isAbsolute_def resolve_def pkg_def devDependency_def
      example_root_def example_documents_def)

lemma example_parents:
  "parent ''/repo/packages/widgets'' = ''/repo/packages''"
  "parent ''/repo/packages/widgets/tests'' = ''/repo/packages/widgets''"
  by code_simp+

lemma example_mkdirSync:
  "mkdirSync (cwd example_env) (mkdirSyncFault example_env) example_files (dir example_env None ''widgets'')
     = Inr example_made"
  using example_dir
  by (simp add: mkdirSync_def example_made_def example_files_def example_env_def lookup_def
      example_parents)

lemma example_events:
  "events (create example_env schedule ''widgets'' None example_files)
     = trace (fst (emit example_env schedule (example_documents None) None ''widgets'' example_made))"
proof -
  have "prepare example_env example_files ''widgets'' None = Inr (example_documents None)"
    by (rule example_prepared) (simp add: example_files_def)
  with example_valid example_mkdirSync show ?thesis
    by (simp add: create_def Let_def split: prod.splits option.splits)
qed

lemma example_pool:
  "fst (issue (elements example_env (example_documents None) None ''widgets''))
     = [\<lparr> tid = NpmIgnore,
          request = WriteFile (join [dir example_env None ''widgets'', ''.npmignore'']) npmignore,
          continuation = [] \<rparr>,
        \<lparr> tid = License,
          request = WriteFile (join [dir example_env None ''widgets'', ''LICENSE'']) ''MIT'',
          continuation = [] \<rparr>,
        \<lparr> tid = IndexTs,
          request = WriteFile (join [dir example_env None ''widgets'', ''index.ts'']) ''formatted as typescript'',
          continuation = [] \<rparr>,
        \<lparr> tid = Tests, request = Mkdir (tests example_env None ''widgets''),
          continuation = [Inr (WriteFile (join [tests example_env None ''widgets'', ''index.test.ts''])
                                ''formatted as typescript'')] \<rparr>,
        \<lparr> tid = Src, request = Mkdir (src example_env None ''widgets''),
          continuation = [Inr (WriteFile (join [src example_env None ''widgets'', ''index.ts''])
                                ''formatted as typescript'')] \<rparr>,
        \<lparr> tid = TsConfig,
          request = WriteFile (join [dir example_env None ''widgets'', ''tsconfig.json'']) tsConfigStr,
          continuation = [] \<rparr>,
        \<lparr> tid = Readme,
          request = WriteFile (join [dir example_env None ''widgets'', ''README.md'']) ''formatted as markdown'',
          continuation = [] \<rparr>,
        \<lparr> tid = PackageJson,
          request = WriteFile (pkgPath example_env None ''widgets'') (pkgStr (manifest (example_documents None))),
          continuation = [] \<rparr>,
        \<lparr> tid = Shrinkwrap,
          request = WriteFile (join [dir example_env None ''widgets'', ''npm-shrinkwrap.json''])
                      (shrinkwrapStr ''widgets''),
          continuation = [] \<rparr>]"
proof -
  have f: "format example_env parser config body = Inr (''formatted as '' @ parser)" for parser config body
    by (simp add: example_env_def)
  have h: "\<exists>header. headerdoc ''widgets'' (manifest (example_documents None)) = Inr header"
    by (simp add: headerdoc_def example_documents_def pkg_object_def bind_def)
  then obtain header where "headerdoc ''widgets'' (manifest (example_documents None)) = Inr header" ..
  then show ?thesis
    by (simp add: elements_def initIndex_def initTests_def initSrc_def initRootFiles_def single_def
        bind_def f example_documents_def)
qed

lemma example_thrown: "snd (issue (elements example_env (example_documents None) None ''widgets'')) = None"
proof -
  have f: "format example_env parser config body = Inr (''formatted as '' @ parser)" for parser config body
    by (simp add: example_env_def)
  have h: "\<exists>header. headerdoc ''widgets'' (manifest (example_documents None)) = Inr header"
    by (simp add: headerdoc_def example_documents_def pkg_object_def bind_def)
  then obtain header where "headerdoc ''widgets'' (manifest (example_documents None)) = Inr header" ..
  then show ?thesis
    by (simp add: elements_def initIndex_def bind_def f split: prod.splits)
qed

lemma example_paths:
  "resolve (cwd example_env) [join [dir example_env None ''widgets'', ''.npmignore'']]
     = ''/repo/packages/widgets/.npmignore''"
  "resolve (cwd example_env) [join [dir example_env None ''widgets'', ''LICENSE'']]
     = ''/repo/packages/widgets/LICENSE''"
  "resolve (cwd example_env) [join [dir example_env None ''widgets'', ''index.ts'']]
     = ''/repo/packages/widgets/index.ts''"
  "resolve (cwd example_env) [join [tests example_env None ''widgets'', ''index.test.ts'']]
     = ''/repo/packages/widgets/tests/index.test.ts''"
  "resolve (cwd example_env) [src example_env None ''widgets''] = ''/repo/packages/widgets/src''"
  "resolve (cwd example_env) [join [src example_env None ''widgets'', ''index.ts'']]
     = ''/repo/packages/widgets/src/index.ts''"
  "resolve (cwd example_env) [join [dir example_env None ''widgets'', ''tsconfig.json'']]
     = ''/repo/packages/widgets/tsconfig.json''"
  "resolve (cwd example_env) [join [dir example_env None ''widgets'', ''README.md'']]
     = ''/repo/packages/widgets/README.md''"
  "resolve (cwd example_env) [pkgPath example_env None ''widgets'']
     = ''/repo/packages/widgets/package.json''"
  "resolve (cwd example_env) [join [dir example_env None ''widgets'', ''npm-shrinkwrap.json'']]
     = ''/repo/packages/widgets/npm-shrinkwrap.json''"
  "parent ''/repo/packages/widgets/.npmignore'' = ''/repo/packages/widgets''"
  by code_simp+

lemma example_requests:
  assumes "Issued i ope \<in> set (events (main example_env schedule (Parsed ''widgets'' None) example_files))"
  shows "(i, ope) \<in> set
     [(NpmIgnore, WriteFile (join [dir example_env None ''widgets'', ''.npmignore'']) npmignore),
      (License, WriteFile (join [dir example_env None ''widgets'', ''LICENSE'']) ''MIT''),
      (IndexTs, WriteFile (join [dir example_env None ''widgets'', ''index.ts'']) ''formatted as typescript''),
      (Tests, Mkdir (tests example_env None ''widgets'')),
      (Tests, WriteFile (join [tests example_env None ''widgets'', ''index.test.ts''])
                ''formatted as typescript''),
      (Src, Mkdir (src example_env None ''widgets'')),
      (Src, WriteFile (join [src example_env None ''widgets'', ''index.ts'']) ''formatted as typescript''),
      (TsConfig, WriteFile (join [dir example_env None ''widgets'', ''tsconfig.json'']) tsConfigStr),
      (Readme, WriteFile (join [dir example_env None ''widgets'', ''README.md'']) ''formatted as markdown''),
      (PackageJson, WriteFile (pkgPath example_env None ''widgets'')
                      (pkgStr (manifest (example_documents None)))),
      (Shrinkwrap, WriteFile (join [dir example_env None ''widgets'', ''npm-shrinkwrap.json''])
                     (shrinkwrapStr ''widgets''))]"
proof -
  let ?em = "fst (emit example_env schedule (example_documents None) None ''widgets'' example_made)"
  from assms have "(i, ope) \<in> reachable_requests ?em"
    by (simp add: reachable_requests_def example_events)
  then have "(i, ope) \<in> reachable_requests
               (start example_env (example_documents None) None ''widgets'' example_made)"
    unfolding fst_emit by (rule subsetD [OF reachable_drain])
  then obtain t where t: "t \<in> set (fst (issue (elements example_env (example_documents None) None ''widgets'')))"
      "tid t = i" "ope = request t \<or> Inr ope \<in> set (continuation t)"
    by (auto simp: reachable_requests_def trace_start split: option.splits)
  from t(1) have "t \<in> set [\<lparr> tid = NpmIgnore,
          request = WriteFile (join [dir example_env None ''widgets'', ''.npmignore'']) npmignore,
          continuation = [] \<rparr>,
        \<lparr> tid = License,
          request = WriteFile (join [dir example_env None ''widgets'', ''LICENSE'']) ''MIT'',
          continuation = [] \<rparr>,
        \<lparr> tid = IndexTs,
          request = WriteFile (join [dir example_env None ''widgets'', ''index.ts'']) ''formatted as typescript'',
          continuation = [] \<rparr>,
        \<lparr> tid = Tests, request = Mkdir (tests example_env None ''widgets''),
          continuation = [Inr (WriteFile (join [tests example_env None ''widgets'', ''index.test.ts''])
                                ''formatted as typescript'')] \<rparr>,
        \<lparr> tid = Src, request = Mkdir (src example_env None ''widgets''),
          continuation = [Inr (WriteFile (join [src example_env None ''widgets'', ''index.ts''])
                                ''formatted as typescript'')] \<rparr>,
        \<lparr> tid = TsConfig,
          request = WriteFile (join [dir example_env None ''widgets'', ''tsconfig.json'']) tsConfigStr,
          continuation = [] \<rparr>,
        \<lparr> tid = Readme,
          request = WriteFile (join [dir example_env None ''widgets'', ''README.md'']) ''formatted as markdown'',
          continuation = [] \<rparr>,
        \<lparr> tid = PackageJson,
          request = WriteFile (pkgPath example_env None ''widgets'') (pkgStr (manifest (example_documents None))),
          continuation = [] \<rparr>,
        \<lparr> tid = Shrinkwrap,
          request = WriteFile (join [dir example_env None ''widgets'', ''npm-shrinkwrap.json''])
                      (shrinkwrapStr ''widgets''),
          continuation = [] \<rparr>]"
    unfolding example_pool .
  then consider "tid t = NpmIgnore" "request t = WriteFile (join [dir example_env None ''widgets'', ''.npmignore'']) npmignore" "continuation t = []"
    | "tid t = License" "request t = WriteFile (join [dir example_env None ''widgets'', ''LICENSE'']) ''MIT''" "continuation t = []"
    | "tid t = IndexTs" "request t = WriteFile (join [dir example_env None ''widgets'', ''index.ts'']) ''formatted as typescript''" "continuation t = []"
    | "tid t = Tests" "request t = Mkdir (tests example_env None ''widgets'')"
        "continuation t = [Inr (WriteFile (join [tests example_env None ''widgets'', ''index.test.ts'']) ''formatted as typescript'')]"
    | "tid t = Src" "request t = Mkdir (src example_env None ''widgets'')"
        "continuation t = [Inr (WriteFile (join [src example_env None ''widgets'', ''index.ts'']) ''formatted as typescript'')]"
    | "tid t = TsConfig" "request t = WriteFile (join [dir example_env None ''widgets'', ''tsconfig.json'']) tsConfigStr" "continuation t = []"
    | "tid t = Readme" "request t = WriteFile (join [dir example_env None ''widgets'', ''README.md'']) ''formatted as markdown''" "continuation t = []"
    | "tid t = PackageJson" "request t = WriteFile (pkgPath example_env None ''widgets'') (pkgStr (manifest (example_documents None)))" "continuation t = []"
    | "tid t = Shrinkwrap" "request t = WriteFile (join [dir example_env None ''widgets'', ''npm-shrinkwrap.json'']) (shrinkwrapStr ''widgets'')" "continuation t = []"
    unfolding set_simps insert_iff empty_iff by (elim disjE) simp_all
  then show ?thesis
    using t(2,3) by cases (simp_all only: list.set insert_iff sum.inject list.set empty_iff simp_thms prod.inject, auto)
qed

lemma drain_two:
  "pool st \<noteq> [] \<Longrightarrow> pool (settle wd aw (s i) st) \<noteq> [] \<Longrightarrow>
   drain (Suc (Suc n)) wd aw s i st
     = drain n wd aw s (Suc (Suc i)) (settle wd aw (s (Suc i)) (settle wd aw (s i) st))"
  by simp

lemma example_second_completion:
  assumes "pool (settle (cwd example_env) True (schedule 0)
                   (start example_env (example_documents None) None ''widgets'' example_made)) \<noteq> []"
  shows "events (main example_env schedule (Parsed ''widgets'' None) example_files)
     = trace (drain 9 (cwd example_env) True schedule (Suc (Suc 0))
         (settle (cwd example_env) True (schedule (Suc 0))
            (settle (cwd example_env) True (schedule 0)
               (start example_env (example_documents None) None ''widgets'' example_made))))"
proof -
  have n: "requests_left (fst (issue (elements example_env (example_documents None) None ''widgets'')))
             = Suc (Suc 9)"
    by (simp add: example_pool requests_left_def)
  have ne: "pool (start example_env (example_documents None) None ''widgets'' example_made) \<noteq> []"
    by (simp add: example_pool)
  have "events (main example_env schedule (Parsed ''widgets'' None) example_files)
      = trace (drain (Suc (Suc 9)) (cwd example_env) True schedule 0
                 (start example_env (example_documents None) None ''widgets'' example_made))"
    unfolding events_main example_events fst_emit n by (simp only: example_thrown simp_thms)
  also have "\<dots> = trace (drain 9 (cwd example_env) True schedule (Suc (Suc 0))
         (settle (cwd example_env) True (schedule (Suc 0))
            (settle (cwd example_env) True (schedule 0)
               (start example_env (example_documents None) None ''widgets'' example_made))))"
    using drain_two [of "start example_env (example_documents None) None ''widgets'' example_made"
        "cwd example_env" True schedule 0 9] ne assms
    by simp
  finally show ?thesis .
qed

section \<open>The example run, settled\<close>

lemma example_issued:
  "t \<in> set (fst (issue (elements example_env (example_documents None) None ''widgets''))) \<Longrightarrow>
   Issued (tid t) (request t) \<in> set (events (main example_env schedule (Parsed ''widgets'' None) example_files))"
  using emit_start_events [of example_env "example_documents None" None "''widgets''" example_made schedule]
  by (auto simp: example_events trace_start)

text \<open>In the example run the readme is written as the formatter returned it.\<close>

theorem C7_witness:
  "prepare example_env example_files ''widgets'' None = Inr (example_documents None)
   \<and> Issued Readme (WriteFile (join [dir example_env None ''widgets'', ''README.md'']) ''formatted as markdown'')
       \<in> set (events (main example_env in_order (Parsed ''widgets'' None) example_files))
   \<and> format example_env ''markdown'' (prettierConfig (example_documents None)) (readme ''widgets'')
       = Inr ''formatted as markdown''"
proof -
  have p: "prepare example_env example_files ''widgets'' None = Inr (example_documents None)"
    by (rule example_prepared) (simp add: example_files_def)
  have i: "Issued Readme (WriteFile (join [dir example_env None ''widgets'', ''README.md'']) ''formatted as markdown'')
       \<in> set (events (main example_env in_order (Parsed ''widgets'' None) example_files))"
    using example_issued [of "\<lparr> tid = Readme,
          request = WriteFile (join [dir example_env None ''widgets'', ''README.md'']) ''formatted as markdown'',
          continuation = [] \<rparr>" in_order]
    by (simp add: example_pool)
  from C7_formatted_and_verbatim_documents [OF p i] p i show ?thesis by simp
qed

text \<open>
  In the example run the formatter answers every call with a text that starts with
  \<^verbatim>\<open>formatted as\<close>; the ignore file and the license are issued with their own text, which
  no call of the formatter returns.
\<close>

theorem C7_unformatted_counterexample:
  "Issued NpmIgnore (WriteFile (join [dir example_env None ''widgets'', ''.npmignore'']) npmignore)
       \<in> set (events (main example_env in_order (Parsed ''widgets'' None) example_files))
   \<and> Issued License (WriteFile (join [dir example_env None ''widgets'', ''LICENSE'']) ''MIT'')
       \<in> set (events (main example_env in_order (Parsed ''widgets'' None) example_files))
   \<and> (\<forall>parser config body. format example_env parser config body \<noteq> Inr npmignore)
   \<and> (\<forall>parser config body. format example_env parser config body \<noteq> Inr ''MIT'')"
proof -
  have 1: "Issued NpmIgnore (WriteFile (join [dir example_env None ''widgets'', ''.npmignore'']) npmignore)
       \<in> set (events (main example_env in_order (Parsed ''widgets'' None) example_files))"
    using example_issued [of "\<lparr> tid = NpmIgnore,
          request = WriteFile (join [dir example_env None ''widgets'', ''.npmignore'']) npmignore,
          continuation = [] \<rparr>" in_order]
    by (simp add: example_pool)
  have 2: "Issued License (WriteFile (join [dir example_env None ''widgets'', ''LICENSE'']) ''MIT'')
       \<in> set (events (main example_env in_order (Parsed ''widgets'' None) example_files))"
    using example_issued [of "\<lparr> tid = License,
          request = WriteFile (join [dir example_env None ''widgets'', ''LICENSE'']) ''MIT'',
          continuation = [] \<rparr>" in_order]
    by (simp add: example_pool)
  have 3: "\<forall>parser config body. format example_env parser config body \<noteq> Inr npmignore"
    by (simp add: example_env_def npmignore_def)
  have 4: "\<forall>parser config body. format example_env parser config body \<noteq> Inr ''MIT''"
    by (simp add: example_env_def)
  from 1 2 3 4 show ?thesis by blast
qed

lemma example_first_completion:
  "set (trace (settle (cwd example_env) True (schedule 0)
                 (start example_env (example_documents None) None ''widgets'' example_made)))
     \<subseteq> set (events (main example_env schedule (Parsed ''widgets'' None) example_files))"
  using emit_first_completion [of example_env "example_documents None" None "''widgets''" schedule example_made]
  by (simp add: example_events example_thrown)

text \<open>
  The example run under a schedule that settles the \<^verbatim>\<open>mkdir\<close> of \<^verbatim>\<open>tests\<close> first: the test stub
  is issued, after that \<^verbatim>\<open>mkdir\<close> has settled.
\<close>

theorem C9_witness:
  "\<exists>pre post. events (main example_env tests_first (Parsed ''widgets'' None) example_files)
        = pre @ Issued Tests (WriteFile (join [tests example_env None ''widgets'', ''index.test.ts''])
                                ''formatted as typescript'') # post
     \<and> Settled Tests (Mkdir (tests example_env None ''widgets'')) None \<in> set pre"
proof -
  let ?st = "start example_env (example_documents None) None ''widgets'' example_made"
  let ?w = "WriteFile (join [tests example_env None ''widgets'', ''index.test.ts'']) ''formatted as typescript''"
  have c: "tests_first 0 = (3, None)"
    by (simp add: tests_first_def)
  have pk: "picked (3, None) ?st
      = \<lparr> tid = Tests, request = Mkdir (tests example_env None ''widgets''), continuation = [Inr ?w] \<rparr>"
    by (simp add: picked_def example_pool)
  have "lookup example_made (resolve (cwd example_env) [tests example_env None ''widgets'']) = None"
    "lookup example_made (parent (resolve (cwd example_env) [tests example_env None ''widgets'']))
       = Some Directory"
    by (simp_all add: example_tests example_parents example_made_def example_files_def lookup_def)
  then have an: "answer (cwd example_env) (3, None) ?st = None"
    by (simp add: answer_def pk)
  have "Issued Tests ?w \<in> set (trace (settle (cwd example_env) True (tests_first 0) ?st))"
    by (simp add: c trace_settle pk an)
  with example_first_completion [of tests_first]
  have "Issued Tests ?w \<in> set (events (main example_env tests_first (Parsed ''widgets'' None) example_files))"
    by blast
  then obtain pre post where
    s: "events (main example_env tests_first (Parsed ''widgets'' None) example_files) = pre @ Issued Tests ?w # post"
    by (auto dest: split_list)
  from C9_subdirectories_before_their_files [OF s] s show ?thesis by blast
qed

text \<open>
  The example run under a schedule whose first completion is the write of the ignore
  file, which succeeds, and whose second is the write of the license, answered with
  \<^verbatim>\<open>ENOSPC\<close>: that error is printed, then the line that says the package was not created;
  the ignore file written before the failure is there at the end with the text that was
  written, and the license of the workspace is still a file.
\<close>

theorem C3_witness:
  "Settled License (WriteFile (join [dir example_env None ''widgets'', ''LICENSE'']) ''MIT'')
        (Some (SystemError ''ENOSPC'' ''write''))
     \<in> set (events (main example_env failing_second (Parsed ''widgets'' None) example_files))
   \<and> Settled NpmIgnore (WriteFile (join [dir example_env None ''widgets'', ''.npmignore'']) npmignore) None
     \<in> set (events (main example_env failing_second (Parsed ''widgets'' None) example_files))
   \<and> console (main example_env failing_second (Parsed ''widgets'' None) example_files)
       = [Write COLORS_Reset,
          Log ''About to write to /repo/packages/widgets/package.json'',
          Log [],
          ErrorObject (SystemError ''ENOSPC'' ''write''),
          Log [],
          Log ''fail create New package  widgets  not created. See error above.'']
   \<and> ending (main example_env failing_second (Parsed ''widgets'' None) example_files) = Returned
   \<and> disk (main example_env failing_second (Parsed ''widgets'' None) example_files)
         ''/repo/packages/widgets/.npmignore'' = Some (File npmignore)
   \<and> is_file (disk (main example_env failing_second (Parsed ''widgets'' None) example_files)) ''/repo/LICENSE''"
proof -
  let ?st = "start example_env (example_documents None) None ''widgets'' example_made"
  let ?r = "main example_env failing_second (Parsed ''widgets'' None) example_files"
  let ?x = "SystemError ''ENOSPC'' ''write''"
  let ?w1 = "WriteFile (join [dir example_env None ''widgets'', ''.npmignore'']) npmignore"
  let ?w2 = "WriteFile (join [dir example_env None ''widgets'', ''LICENSE'']) ''MIT''"
  let ?s1 = "Settled NpmIgnore ?w1 None"
  let ?s2 = "Settled License ?w2 (Some ?x)"
  let ?key = "''/repo/packages/widgets/.npmignore''"
  have c0: "failing_second 0 = (0, None)"
    by (simp add: failing_second_def)
  have c1: "failing_second (Suc 0) = (0, Some ?x)"
    by (simp add: failing_second_def)
  have wd: "cwd example_env = ''/repo''"
    by (simp add: example_env_def)
  have pk0: "picked (0, None) ?st = \<lparr> tid = NpmIgnore, request = ?w1, continuation = [] \<rparr>"
    by (simp add: picked_def example_pool)
  have "perform (cwd example_env) ?w1 None example_made
          = (None, example_made(resolve (cwd example_env) [join [dir example_env None ''widgets'', ''.npmignore'']]
                \<mapsto> File npmignore))"
    by (rule perform_WriteFile)
       (simp_all add: example_paths lookup_def example_made_def example_files_def)
  then have an0: "answer (cwd example_env) (0, None) ?st = None"
    and f1: "files (settle (cwd example_env) True (0, None) ?st) = example_made(?key \<mapsto> File npmignore)"
    by (simp_all add: answer_def pk0 files_settle example_paths)
  let ?st1 = "settle (cwd example_env) True (0, None) ?st"
  have tr1: "trace ?st1 = trace ?st @ [?s1]"
    by (simp add: trace_settle pk0 an0)
  have p1: "pool ?st1 = tl (pool ?st)"
    by (simp add: pool_settle pk0 an0 drop_Suc)
  have pk1: "picked (0, Some ?x) ?st1 = \<lparr> tid = License, request = ?w2, continuation = [] \<rparr>"
    by (simp add: picked_def p1 example_pool)
  have an1: "answer (cwd example_env) (0, Some ?x) ?st1 = Some ?x"
    by (simp add: answer_def pk1)
  let ?st2 = "settle (cwd example_env) True (0, Some ?x) ?st1"
  have "trace ?st2 = trace ?st1 @ [?s2]"
    by (subst trace_settle) (simp add: pk1 an1)
  then have tr2: "trace ?st2 = trace ?st @ [?s1, ?s2]"
    by (simp add: tr1)
  have ne1: "pool (settle (cwd example_env) True (failing_second 0) ?st) \<noteq> []"
    by (simp add: c0 p1 example_pool)
  have ev: "events ?r = trace (drain 9 (cwd example_env) True failing_second (Suc (Suc 0)) ?st2)"
    using example_second_completion [of failing_second] ne1 by (simp add: c0 c1)
  have sub: "set (trace ?st2) \<subseteq> set (events ?r)"
    unfolding ev by (rule trace_drain_mono)
  have m1: "?s1 \<in> set (events ?r)" and m2: "?s2 \<in> set (events ?r)"
    using sub by (simp_all add: tr2)
  have "first_failure (trace ?st2) = Some ?x"
    by (simp add: tr2 first_failure_append first_failure_start example_thrown)
  then have ff: "first_failure (events ?r) = Some ?x"
    unfolding ev by (rule drain_first_failure_kept)
  from split_list_last [OF m1] obtain pre post where
    sp: "events ?r = pre @ ?s1 # post" and last: "?s1 \<notin> set post"
    by blast
  have clear: "\<not> lands (cwd example_env) (resolve (cwd example_env) [join [dir example_env None ''widgets'', ''.npmignore'']]) ev"
    if "ev \<in> set post" for ev
  proof
    assume l: "lands (cwd example_env) (resolve (cwd example_env) [join [dir example_env None ''widgets'', ''.npmignore'']]) ev"
    then obtain j ope where e: "ev = Settled j ope None" and k: "landing (cwd example_env) ope = ?key"
      by (cases "(cwd example_env, ?key, ev)" rule: lands.cases) (auto simp: example_paths)
    from that sp e have "Settled j ope None \<in> set (events ?r)" by simp
    then have "Issued j ope \<in> set (events ?r)"
      using emit_settled [of j ope None example_env failing_second "example_documents None" None "''widgets''" example_made]
      by (simp add: example_events)
    from example_requests [OF this] k have "j = NpmIgnore \<and> ope = ?w1"
      by (auto simp: example_paths example_tests)
    with e that last show False by simp
  qed
  from C3_failed_write [OF m2] obtain x0 files1 where
    ff0: "first_failure (events ?r) = Some x0" and
    con: "console ?r = Write COLORS_Reset # about example_env None ''widgets''
               @ [ErrorObject x0, Log [],
                  Log (chalk example_env ''red'' ''fail'' @ '' '' @ chalk example_env ''magenta'' ''create''
                       @ '' New package '' @ chalk example_env ''bgBlack'' ('' '' @ ''widgets'' @ '' '')
                       @ '' not created. See error above.'')]" and
    en: "ending ?r = Returned" and
    keep: "\<forall>q. is_file example_files q \<longrightarrow> is_file (disk ?r) q" and
    content: "\<forall>pre j q c' post.
               events ?r = pre @ Settled j (WriteFile q c') None # post
               \<and> (\<forall>ev \<in> set post. \<not> lands (cwd example_env) (resolve (cwd example_env) [q]) ev) \<longrightarrow>
               disk ?r (resolve (cwd example_env) [q]) = Some (File c')"
    by blast
  from content sp clear
  have "disk ?r (resolve (cwd example_env) [join [dir example_env None ''widgets'', ''.npmignore'']])
          = Some (File npmignore)"
    by blast
  then have kept: "disk ?r ?key = Some (File npmignore)"
    by (simp add: example_paths)
  have "is_file example_files ''/repo/LICENSE''"
    by (simp add: is_file_def example_files_def)
  with keep have lic: "is_file (disk ?r) ''/repo/LICENSE''" by blast
  from ff ff0 have x0: "x0 = ?x" by simp
  have ab: "about example_env None ''widgets''
      = [Log ''About to write to /repo/packages/widgets/package.json'', Log []]"
    by code_simp
  have ch: "chalk example_env style body = body" for style body
    by (simp add: example_env_def)
  from m1 m2 con en kept lic x0 ab ch show ?thesis by simp
qed

lemma example_collides:
  "example_made (resolve (cwd example_env) [dir example_env None ''widgets'']) \<noteq> None"
  by (simp add: example_dir example_made_def)

lemma example_prepared_made:
  "prepare example_env example_made ''widgets'' None = Inr (example_documents None)"
  by (rule example_prepared) (simp add: example_made_def example_files_def)

text \<open>The example run with the directory \<^verbatim>\<open>packages/widgets\<close> already there.\<close>

theorem C2_witness:
  "example_made (resolve (cwd example_env) [dir example_env None ''widgets'']) \<noteq> None
   \<and> disk (main example_env in_order (Parsed ''widgets'' None) example_made) = example_made
   \<and> events (main example_env in_order (Parsed ''widgets'' None) example_made) = []
   \<and> console (main example_env in_order (Parsed ''widgets'' None) example_made)
       = Write COLORS_Reset # about example_env None ''widgets''
         @ caught example_env ''widgets'' (SystemError ''EEXIST'' (dir example_env None ''widgets''))"
proof -
  have f: "mkdirSyncFault example_env = None"
    by (simp add: example_env_def)
  from C2_existing_directory [of example_made example_env None "''widgets''" in_order]
    example_valid example_prepared_made f example_collides
  show ?thesis by simp
qed

section \<open>How failures end a run\<close>

lemma thrown_in_trace:
  assumes "snd (issue (elements e d folder name)) = Some x"
  shows "ThrewSync x \<in> set (trace (fst (emit e schedule d folder name files1)))"
proof -
  from assms have "ThrewSync x \<in> set (trace (start e d folder name files1))"
    by (simp add: trace_start)
  with emit_start_events show ?thesis by blast
qed

text \<open>
  The failures the script handles. A failure the argument parser reports without an
  exception prints the help and the message on the error stream and exits with status
  zero. In a run with a valid name and at most one folder override every failure of the
  generation, be it a document that cannot be built, the target directory that cannot be
  made, or the first failure of the emission, is caught: the error is printed, then the
  failure message, and the body returns, so that the process ends with status zero. When
  the array of promises was completed no rejection is left unhandled.
\<close>

lemma argument_error_exits_zero:
  "ending (main e schedule (Failed msg None help) files0) = Exited 0
   \<and> console (main e schedule (Failed msg None help) files0)
       = [ErrorLine (replace_first (nl @ nl @ nl) nl help), ErrorLine [], ErrorLine msg]
   \<and> disk (main e schedule (Failed msg None help) files0) = files0"
  by (simp add: main_def fail_def)

lemma generation_failures_are_caught:
  assumes valid: "validForNewPackages (npmValiddate (builtins e) name)"
  shows "ending (main e schedule (Parsed name folder) files0) = Returned
      \<and> (\<forall>y. prepare e files0 name folder = Inl y \<longrightarrow>
            console (main e schedule (Parsed name folder) files0)
              = Write COLORS_Reset # caught e name y)
      \<and> (\<forall>d y. prepare e files0 name folder = Inr d
              \<and> mkdirSync (cwd e) (mkdirSyncFault e) files0 (dir e folder name) = Inl y \<longrightarrow>
            console (main e schedule (Parsed name folder) files0)
              = Write COLORS_Reset # about e folder name @ caught e name y)
      \<and> (\<forall>y. first_failure (events (main e schedule (Parsed name folder) files0)) = Some y \<longrightarrow>
            console (main e schedule (Parsed name folder) files0)
              = Write COLORS_Reset # about e folder name @ caught e name y)
      \<and> ((\<forall>y. ThrewSync y \<notin> set (events (main e schedule (Parsed name folder) files0))) \<longrightarrow>
            unhandledRejections (main e schedule (Parsed name folder) files0) = [])"
proof (cases rule: create_cases [of e name schedule folder files0])
  case invalid
  with valid show ?thesis by simp
next
  case (unprepared y)
  then show ?thesis by simp
next
  case (collided d y)
  then show ?thesis by simp
next
  case (emitted d files1)
  have 1: "snd (emit e schedule d folder name files1)
             = first_failure (trace (fst (emit e schedule d folder name files1)))"
    by (rule emit_first_failure)
  have 2: "unhandled (fst (emit e schedule d folder name files1)) = []"
    if "\<forall>y. ThrewSync y \<notin> set (trace (fst (emit e schedule d folder name files1)))"
  proof (cases "snd (issue (elements e d folder name))")
    case None
    then show ?thesis by (rule emit_unhandled)
  next
    case (Some y)
    from thrown_in_trace [OF this] that show ?thesis by blast
  qed
  from emitted 1 2 show ?thesis by simp
qed

text \<open>
  The failures the script does not handle. The name is validated before the \<^verbatim>\<open>try\<close> block
  is entered: a name that is not valid makes the body's promise reject with the error,
  which nothing catches; nothing is printed after the colour reset, neither the error
  nor the failure message, and the script calls no exit. The same holds of a folder
  override given more than once, on which \<^verbatim>\<open>join\<close> throws before the \<^verbatim>\<open>try\<close> block, and an
  exception that leaves the argument parser ends the module uncaught.
\<close>

lemma invalid_name_rejects:
  assumes "\<not> validForNewPackages (npmValiddate (builtins e) name)"
  shows "main e schedule (Parsed name folder) files0
     = \<lparr> console = [Write COLORS_Reset], disk = files0, events = [],
         ending = Rejected (Error (invalid_name_message name (npmValiddate (builtins e) name))),
         unhandledRejections = [] \<rparr>"
  using assms by (simp add: main_def create_def Let_def)

lemma repeated_folder_rejects:
  assumes "validForNewPackages (npmValiddate (builtins e) name)"
  shows "main e schedule (Repeated name folders) files0
     = \<lparr> console = [Write COLORS_Reset], disk = files0, events = [],
         ending = Rejected (TypeError join_array_message), unhandledRejections = [] \<rparr>"
  using assms by (simp add: main_def create_repeated_def Let_def)

lemma parser_exception_is_uncaught:
  "ending (main e schedule (Crashed x) files0) = Uncaught x
   \<and> console (main e schedule (Crashed x) files0) = []"
  by (simp add: main_def)

text \<open>
  Claim C8 does not hold of the code. The run of \<^verbatim>\<open>create "Invalid Name!"\<close>: the name has a
  space and an exclamation mark in it, the validation error is thrown outside the \<^verbatim>\<open>try\<close>
  block, and the run ends with the rejected promise of the body. The console holds the
  colour reset only: the error is not logged and no failure message is printed; no
  request is issued and the script does not exit with status zero.
\<close>

theorem C8_invalid_name_is_not_caught:
  "ending (main example_env in_order (Parsed ''Invalid Name!'' None) example_files)
     = Rejected (Error (''the name '' @ dq @ ''Invalid Name!'' @ dq @ '' is not a valid npm package name:''
                        @ nl @ ''name can only contain URL-friendly characters''))
   \<and> console (main example_env in_order (Parsed ''Invalid Name!'' None) example_files)
       = [Write COLORS_Reset]
   \<and> events (main example_env in_order (Parsed ''Invalid Name!'' None) example_files) = []
   \<and> unhandledRejections (main example_env in_order (Parsed ''Invalid Name!'' None) example_files) = []"
  by code_simp

section \<open>The shape of a serialised text\<close>
































section \<open>The serialised documents\<close>






end
